theory Spec2Isabelle
  imports Complex_Main "HOL-Library.Word"
begin

section \<open>Product quantisation tables and the aligned reader of DiskANN\<close>

text \<open>
  The development follows \<^verbatim>\<open>src/pq.cpp\<close> and
  \<^verbatim>\<open>src/linux_aligned_file_reader.cpp\<close>. Arrays are lists, a pointer into an
  array is the array with an index, and a run that reads or writes outside an array
  (undefined behaviour in C++) ends there, with a result that says so. Sizes and indices
  are natural numbers: they index arrays that exist in memory, so the 64-bit arithmetic of
  the source does not wrap on them. The element type \<^verbatim>\<open>float\<close> is a type parameter with the operations the
  code applies to it; no law of arithmetic is assumed of it.
\<close>

subsection \<open>Loops that can fail\<close>

text \<open>
  A \<^verbatim>\<open>for\<close> loop over an index range whose body can leave the array bounds: the
  loop stops at the first failing iteration.
\<close>

fun fold_opt :: "('s \<Rightarrow> 'b \<Rightarrow> 's option) \<Rightarrow> 'b list \<Rightarrow> 's \<Rightarrow> 's option" where
  "fold_opt f [] s = Some s"
| "fold_opt f (x # xs) s = (case f s x of None \<Rightarrow> None | Some s' \<Rightarrow> fold_opt f xs s')"

subsection \<open>Query-side helpers\<close>

text \<open>\<^verbatim>\<open>memset(buf, 0, n * sizeof(float))\<close>: the first \<open>n\<close> entries become zero.\<close>

definition memset_zero :: "nat \<Rightarrow> 'a::zero list \<Rightarrow> 'a list option" where
  "memset_zero n buf =
     (if n \<le> length buf then Some (replicate n 0 @ drop n buf) else None)"

text \<open>
  \<^verbatim>\<open>pq_dist_lookup\<close> (pq.cpp, lines 274-292). The prefetch hints have no effect on
  the values. The stride between the rows of \<^verbatim>\<open>pq_dists\<close> is the literal 256 of
  the source; a code is one byte. \<open>lookup_point\<close> is the body of the inner loop,
  \<open>lookup_chunk\<close> the body of the outer one.
\<close>

definition lookup_point ::
  "8 word list \<Rightarrow> nat \<Rightarrow> 'a::plus list \<Rightarrow> nat \<Rightarrow> 'a list \<Rightarrow> nat \<Rightarrow> 'a list option" where
  "lookup_point pq_ids pq_nchunks pq_dists chunk dists_out idx =
     (if pq_nchunks * idx + chunk < length pq_ids then
        (let pq_centerid = pq_ids ! (pq_nchunks * idx + chunk) in
         if 256 * chunk + unat pq_centerid < length pq_dists \<and> idx < length dists_out then
           Some (dists_out[idx := dists_out ! idx + pq_dists ! (256 * chunk + unat pq_centerid)])
         else None)
      else None)"

definition lookup_chunk ::
  "8 word list \<Rightarrow> nat \<Rightarrow> nat \<Rightarrow> 'a::plus list \<Rightarrow> 'a list \<Rightarrow> nat \<Rightarrow> 'a list option" where
  "lookup_chunk pq_ids n_pts pq_nchunks pq_dists dists_out chunk =
     fold_opt (lookup_point pq_ids pq_nchunks pq_dists chunk) [0..<n_pts] dists_out"

definition pq_dist_lookup ::
  "8 word list \<Rightarrow> nat \<Rightarrow> nat \<Rightarrow> 'a::{zero,plus} list \<Rightarrow> 'a list \<Rightarrow> 'a list option" where
  "pq_dist_lookup pq_ids n_pts pq_nchunks pq_dists dists_out =
     (case memset_zero n_pts dists_out of
        None \<Rightarrow> None
      | Some z \<Rightarrow> fold_opt (lookup_chunk pq_ids n_pts pq_nchunks pq_dists) [0..<pq_nchunks] z)"


subsection \<open>The load-balanced chunk partition\<close>

text \<open>
  The partition code of \<^verbatim>\<open>generate_pq_pivots\<close> (pq.cpp, lines 358-399); lines
  519-560 of \<^verbatim>\<open>generate_opq_pivots\<close> are the same text, so one model serves both.
  \<open>dimn\<close> is the source's \<^verbatim>\<open>dim\<close>. The loads of the bins are the floats 0
  (never changed) and \<^verbatim>\<open>FLT_MAX\<close>, both integers, compared as such.
\<close>

definition FLT_MAX :: int where
  "FLT_MAX = 340282346638528859811704183484516925440"

text \<open>
  \<^verbatim>\<open>floor((double) dim / (double) num_pq_chunks)\<close> and the same with
  \<^verbatim>\<open>ceil\<close>. Both operands are 32-bit unsigned values, exact as doubles, and the
  rounded quotient of two such values is an integer only when the exact one is; the
  real quotient therefore gives the same floor and ceiling.
\<close>

definition low_val :: "nat \<Rightarrow> nat \<Rightarrow> nat" where
  "low_val dimn num_pq_chunks = nat \<lfloor>real dimn / real num_pq_chunks\<rfloor>"

definition high_val :: "nat \<Rightarrow> nat \<Rightarrow> nat" where
  "high_val dimn num_pq_chunks = nat \<lceil>real dimn / real num_pq_chunks\<rceil>"

record partition_state =
  bin_to_dims :: "nat list list"
  cur_num_high :: nat
  cur_bin_threshold :: nat

text \<open>\<^verbatim>\<open>dim_to_bin\<close> is declared and searched, but nothing is ever inserted into it.\<close>

definition dim_to_bin :: "nat \<rightharpoonup> nat" where
  "dim_to_bin = Map.empty"

text \<open>
  The inner loop over the bins: \<open>scan_bin\<close> is its body, on the pair
  \<^verbatim>\<open>(cur_best, cur_best_load)\<close> that starts as
  \<^verbatim>\<open>(num_pq_chunks + 1, FLT_MAX)\<close>.
\<close>

definition scan_bin :: "int list \<Rightarrow> nat list list \<Rightarrow> nat \<Rightarrow> nat \<times> int \<Rightarrow> nat \<Rightarrow> nat \<times> int" where
  "scan_bin bin_loads bins threshold best b =
     (case best of (cur_best, cur_best_load) \<Rightarrow>
        if bin_loads ! b < cur_best_load \<and> length (bins ! b) < threshold
        then (b, bin_loads ! b) else (cur_best, cur_best_load))"

definition choose_bin :: "nat \<Rightarrow> int list \<Rightarrow> nat list list \<Rightarrow> nat \<Rightarrow> nat" where
  "choose_bin num_pq_chunks bin_loads bins threshold =
     fst (foldl (scan_bin bin_loads bins threshold) (num_pq_chunks + 1, FLT_MAX)
            [0..<num_pq_chunks])"

text \<open>
  The body of the loop over the dimensions. \<^verbatim>\<open>bin_to_dims[cur_best]\<close> with no bin
  chosen (\<^verbatim>\<open>cur_best = num_pq_chunks + 1\<close>) is outside the vector.
\<close>

definition place_dim ::
  "nat \<Rightarrow> nat \<Rightarrow> nat \<Rightarrow> nat \<Rightarrow> int list \<Rightarrow> partition_state \<Rightarrow> nat \<Rightarrow> partition_state option" where
  "place_dim num_pq_chunks low high max_num_high bin_loads st d =
     (if dim_to_bin d \<noteq> None then Some st
      else
        let cur_best = choose_bin num_pq_chunks bin_loads (bin_to_dims st) (cur_bin_threshold st)
        in if cur_best < length (bin_to_dims st) then
             let bins = (bin_to_dims st)[cur_best := bin_to_dims st ! cur_best @ [d]] in
             if length (bins ! cur_best) = high then
               let nh = cur_num_high st + 1 in
               Some (st\<lparr>bin_to_dims := bins, cur_num_high := nh,
                         cur_bin_threshold :=
                           (if nh = max_num_high then low else cur_bin_threshold st)\<rparr>)
             else Some (st\<lparr>bin_to_dims := bins\<rparr>)
           else None)"

text \<open>The loop that turns the bin sizes into offsets, and the whole computation.
  A chunk count of zero makes the quotient infinite and its conversion to
  \<^verbatim>\<open>size_t\<close> undefined.\<close>

definition push_offset :: "nat list list \<Rightarrow> nat list \<Rightarrow> nat \<Rightarrow> nat list" where
  "push_offset bins chunk_offsets b =
     (if b > 0 then chunk_offsets @ [chunk_offsets ! (b - 1) + length (bins ! (b - 1))]
      else chunk_offsets)"

definition compute_chunk_offsets :: "nat \<Rightarrow> nat \<Rightarrow> nat list option" where
  "compute_chunk_offsets dimn num_pq_chunks =
     (if num_pq_chunks = 0 then None
      else
        let low = low_val dimn num_pq_chunks;
            high = high_val dimn num_pq_chunks;
            max_num_high = dimn - low * num_pq_chunks;
            init = \<lparr>bin_to_dims = replicate num_pq_chunks [], cur_num_high = 0,
                    cur_bin_threshold = high\<rparr>
        in case fold_opt (place_dim num_pq_chunks low high max_num_high
                            (replicate num_pq_chunks 0)) [0..<dimn] init of
             None \<Rightarrow> None
           | Some st \<Rightarrow>
               Some (foldl (push_offset (bin_to_dims st)) [0] [0..<num_pq_chunks] @ [dimn]))"


subsection \<open>The aligned reader: batches, windows and retries\<close>




record AlignedRead =
  offset :: nat
  len :: nat
  buf :: nat

record iocb =
  aio_fildes :: int
  aio_buf :: nat
  aio_nbytes :: nat
  aio_offset :: nat


text \<open>A call records what was passed and what the kernel returned.\<close>

datatype syscall = IoSubmit "iocb list" int | IoGetEvents nat nat int

fun result :: "syscall \<Rightarrow> int" where
  "result (IoSubmit cbs ret) = ret"
| "result (IoGetEvents min_nr nr ret) = ret"















subsection \<open>Files of typed blocks\<close>

text \<open>
  Modelled from the spec: \<^verbatim>\<open>save_bin\<close>, \<^verbatim>\<open>load_bin\<close> and
  \<^verbatim>\<open>file_exists\<close> are defined in a header that is not part of the sources at hand.
  The specification describes them as reading and writing typed two-dimensional matrices
  with a header \<open>rows, cols\<close> (two 32-bit values) before the payload, at byte offsets
  given by the caller within one file. A file is a partial map from byte offsets to the
  block that starts there; writing a block destroys every block whose bytes it
  overlaps. Reading where no block starts, a block of another element type, or a block
  cut short, fails. Offsets and 32-bit payload values are natural numbers.
\<close>

datatype exn = ANNException string | FileReadError | OutOfBounds

datatype 'a payload = Floats "'a list" | U32s "nat list" | U64s "nat list"

record 'a blob =
  rows :: nat
  cols :: nat
  payload :: "'a payload"

type_synonym 'a binfile = "nat \<Rightarrow> 'a blob option"
type_synonym 'a filesystem = "string \<Rightarrow> 'a binfile option"

fun payload_length :: "'a payload \<Rightarrow> nat" where
  "payload_length (Floats xs) = length xs"
| "payload_length (U32s xs) = length xs"
| "payload_length (U64s xs) = length xs"

fun elem_size :: "'a payload \<Rightarrow> nat" where
  "elem_size (Floats xs) = 4"
| "elem_size (U32s xs) = 4"
| "elem_size (U64s xs) = 8"

fun take_payload :: "nat \<Rightarrow> 'a payload \<Rightarrow> 'a payload" where
  "take_payload n (Floats xs) = Floats (take n xs)"
| "take_payload n (U32s xs) = U32s (take n xs)"
| "take_payload n (U64s xs) = U64s (take n xs)"

definition blob_bytes :: "'a blob \<Rightarrow> nat" where
  "blob_bytes b = rows b * cols b * elem_size (payload b) + 2 * 4"

definition write_blob :: "'a binfile \<Rightarrow> nat \<Rightarrow> 'a blob \<Rightarrow> 'a binfile" where
  "write_blob f file_offset b =
     (\<lambda>pos. if pos = file_offset then Some b
           else (case f pos of
                   None \<Rightarrow> None
                 | Some old \<Rightarrow>
                     if pos < file_offset + blob_bytes b \<and> file_offset < pos + blob_bytes old
                     then None else Some old))"

definition file_exists :: "'a filesystem \<Rightarrow> string \<Rightarrow> bool" where
  "file_exists fs name = (fs name \<noteq> None)"

definition save_bin ::
  "'a filesystem \<Rightarrow> string \<Rightarrow> 'a payload \<Rightarrow> nat \<Rightarrow> nat \<Rightarrow> nat \<Rightarrow> 'a filesystem \<times> nat" where
  "save_bin fs filename data npts ndims file_offset =
     (let b = \<lparr>rows = npts, cols = ndims, payload = take_payload (npts * ndims) data\<rparr>;
          f = (case fs filename of None \<Rightarrow> Map.empty | Some old \<Rightarrow> old)
      in (fs(filename \<mapsto> write_blob f file_offset b), blob_bytes b))"

definition load_bin :: "'a filesystem \<Rightarrow> string \<Rightarrow> nat \<Rightarrow> exn + 'a blob" where
  "load_bin fs filename file_offset =
     (case fs filename of
        None \<Rightarrow> Inl FileReadError
      | Some f \<Rightarrow>
          (case f file_offset of
             None \<Rightarrow> Inl FileReadError
           | Some b \<Rightarrow>
               if payload_length (payload b) = rows b * cols b then Inr b
               else Inl FileReadError))"

fun floats_of :: "'a payload \<Rightarrow> exn + 'a list" where
  "floats_of (Floats xs) = Inr xs"
| "floats_of _ = Inl FileReadError"

fun u32s_of :: "'a payload \<Rightarrow> exn + nat list" where
  "u32s_of (U32s xs) = Inr xs"
| "u32s_of _ = Inl FileReadError"

fun u64s_of :: "'a payload \<Rightarrow> exn + nat list" where
  "u64s_of (U64s xs) = Inr xs"
| "u64s_of _ = Inl FileReadError"

definition load_bin_float :: "'a filesystem \<Rightarrow> string \<Rightarrow> nat \<Rightarrow> exn + ('a list \<times> nat \<times> nat)" where
  "load_bin_float fs filename file_offset =
     (case load_bin fs filename file_offset of
        Inl e \<Rightarrow> Inl e
      | Inr b \<Rightarrow> (case floats_of (payload b) of
                    Inl e \<Rightarrow> Inl e | Inr xs \<Rightarrow> Inr (xs, rows b, cols b)))"

definition load_bin_u32 :: "'a filesystem \<Rightarrow> string \<Rightarrow> nat \<Rightarrow> exn + (nat list \<times> nat \<times> nat)" where
  "load_bin_u32 fs filename file_offset =
     (case load_bin fs filename file_offset of
        Inl e \<Rightarrow> Inl e
      | Inr b \<Rightarrow> (case u32s_of (payload b) of
                    Inl e \<Rightarrow> Inl e | Inr xs \<Rightarrow> Inr (xs, rows b, cols b)))"

definition load_bin_u64 :: "'a filesystem \<Rightarrow> string \<Rightarrow> nat \<Rightarrow> exn + (nat list \<times> nat \<times> nat)" where
  "load_bin_u64 fs filename file_offset =
     (case load_bin fs filename file_offset of
        Inl e \<Rightarrow> Inl e
      | Inr b \<Rightarrow> (case u64s_of (payload b) of
                    Inl e \<Rightarrow> Inl e | Inr xs \<Rightarrow> Inr (xs, rows b, cols b)))"

subsection \<open>The table of centroids\<close>

text \<open>
  Modelled from the spec: \<^verbatim>\<open>NUM_PQ_CENTROIDS\<close> is defined in \<^verbatim>\<open>pq.h\<close>, not
  part of the sources at hand; the specification has the loader verify \<open>K = 256\<close>, and
  the source writes the literal 256 beside it.
\<close>

definition NUM_PQ_CENTROIDS :: nat where
  "NUM_PQ_CENTROIDS = 256"

record 'a FixedChunkPQTable =
  tables :: "'a list"
  tables_tr :: "'a list"
  ndims :: nat
  n_chunks :: nat
  chunk_offsets :: "nat list"
  centroid :: "'a list"
  rotmat_tr :: "'a list"
  use_rotation :: bool

text \<open>
  The transposed view (pq.cpp, lines 160-166): \<^verbatim>\<open>new float[256 * ndims]\<close> is not
  initialised, then every entry is written. \<open>transpose_row\<close> is the inner loop.
\<close>

definition transpose_row :: "'a list \<Rightarrow> nat \<Rightarrow> 'a list \<Rightarrow> nat \<Rightarrow> 'a list" where
  "transpose_row tbl nd tr i = foldl (\<lambda>tr j. tr[j * 256 + i := tbl ! (i * nd + j)]) tr [0..<nd]"

definition transpose_tables :: "'a list \<Rightarrow> nat \<Rightarrow> 'a list" where
  "transpose_tables tbl nd =
     foldl (transpose_row tbl nd) (replicate (256 * nd) undefined) [0..<256]"

text \<open>
  \<^verbatim>\<open>load_pq_centroid_bin\<close> (lines 37-167) on the object \<open>this\<close>; a
  \<^verbatim>\<open>throw\<close> is the result \<open>Inl\<close>. The offsets are printed entry by entry before
  they are used, which reads outside the array when it holds fewer than \<open>nr\<close> values.
  \<^verbatim>\<open>n_chunks = nr - 1\<close> is unsigned 64-bit arithmetic. \<open>load_rotation\<close> is the part on
  the sibling rotation file (lines 146-158).
\<close>

definition load_rotation ::
  "'a filesystem \<Rightarrow> string \<Rightarrow> 'a FixedChunkPQTable \<Rightarrow> exn + 'a FixedChunkPQTable" where
  "load_rotation fs rotmat_file this =
     (if file_exists fs rotmat_file then
        (case load_bin_float fs rotmat_file 0 of
           Inl e \<Rightarrow> Inl e
         | Inr (rot, nr, nc) \<Rightarrow>
             if nr \<noteq> ndims this \<or> nc \<noteq> ndims this
             then Inl (ANNException ''Error loading rotation matrix file'')
             else Inr (this\<lparr>rotmat_tr := rot, use_rotation := True\<rparr>))
      else Inr this)"

definition load_pq_centroid_bin ::
  "'a filesystem \<Rightarrow> 'a FixedChunkPQTable \<Rightarrow> string \<Rightarrow> nat \<Rightarrow> exn + 'a FixedChunkPQTable" where
  "load_pq_centroid_bin fs this pq_table_file num_chunks =
     (let rotmat_file = pq_table_file @ ''_rotation_matrix.bin'' in
      case load_bin_u64 fs pq_table_file 0 of
        Inl e \<Rightarrow> Inl e
      | Inr (file_offset_data, nr, nc) \<Rightarrow>
          if nr \<noteq> 4 \<and> nr \<noteq> 5
          then Inl (ANNException ''Error reading pq_pivots file at offsets data.'')
          else
            let use_old_filetype = (nr = 5) in
            if length file_offset_data < nr then Inl OutOfBounds
            else
            case load_bin_float fs pq_table_file (file_offset_data ! 0) of
              Inl e \<Rightarrow> Inl e
            | Inr (tbl, nr, nc) \<Rightarrow>
                if nr \<noteq> NUM_PQ_CENTROIDS
                then Inl (ANNException ''Error reading pq_pivots file at pivots data.'')
                else
                  let this = this\<lparr>tables := tbl, ndims := nc\<rparr> in
                  case load_bin_float fs pq_table_file (file_offset_data ! 1) of
                    Inl e \<Rightarrow> Inl e
                  | Inr (cen, nr, nc) \<Rightarrow>
                      if nr \<noteq> ndims this \<or> nc \<noteq> 1
                      then Inl (ANNException ''Error reading pq_pivots file at centroid data.'')
                      else
                        let this = this\<lparr>centroid := cen\<rparr>;
                            chunk_offsets_index = (if use_old_filetype then 3 else 2) in
                        case load_bin_u32 fs pq_table_file
                               (file_offset_data ! chunk_offsets_index) of
                          Inl e \<Rightarrow> Inl e
                        | Inr (offs, nr, nc) \<Rightarrow>
                            if nc \<noteq> 1 \<or> (nr \<noteq> num_chunks + 1 \<and> num_chunks \<noteq> 0)
                            then Inl (ANNException ''Error loading chunk offsets file'')
                            else
                              let this = this\<lparr>chunk_offsets := offs,
                                               n_chunks := (nr + 2 ^ 64 - 1) mod 2 ^ 64\<rparr> in
                              case load_rotation fs rotmat_file this of
                                Inl e \<Rightarrow> Inl e
                              | Inr this \<Rightarrow>
                                  Inr (this\<lparr>tables_tr :=
                                         transpose_tables (tables this) (ndims this)\<rparr>))"


subsection \<open>The encoder's reading of the pivots\<close>

text \<open>
  \<^verbatim>\<open>generate_pq_data_from_pivots\<close> (lines 693-924). The base file starts with the
  two 32-bit values \<open>npts\<close> and \<open>dim\<close>, the layout of a block at offset 0, of which
  only this header is read before the pivots (\<open>read_base_header\<close>). The pivots
  are read at lines 714-782 (\<open>load_encoder_pivots\<close>, its locals in the record
  \<open>encoder_pivots\<close>); the encoding of the blocks of points after that is the parameter
  \<open>encode_blocks\<close>.
\<close>

record 'a encoder_pivots =
  e_full_pivot_data :: "'a list"
  e_centroid :: "'a list"
  e_chunk_offsets :: "nat list"
  e_rotmat_tr :: "'a list"

definition load_encoder_rotation ::
  "'a filesystem \<Rightarrow> string \<Rightarrow> nat \<Rightarrow> bool \<Rightarrow> 'a encoder_pivots \<Rightarrow> exn + 'a encoder_pivots" where
  "load_encoder_rotation fs pq_pivots_path dimn use_opq pv =
     (if use_opq then
        (case load_bin_float fs (pq_pivots_path @ ''_rotation_matrix.bin'') 0 of
           Inl e \<Rightarrow> Inl e
         | Inr (rot, nr, nc) \<Rightarrow>
             if nr \<noteq> dimn \<or> nc \<noteq> dimn
             then Inl (ANNException ''Error reading rotation matrix file.'')
             else Inr (pv\<lparr>e_rotmat_tr := rot\<rparr>))
      else Inr pv)"

definition load_encoder_pivots ::
  "'a filesystem \<Rightarrow> nat \<Rightarrow> nat \<Rightarrow> nat \<Rightarrow> string \<Rightarrow> bool \<Rightarrow> exn + 'a encoder_pivots" where
  "load_encoder_pivots fs dimn num_centers num_pq_chunks pq_pivots_path use_opq =
     (if \<not> file_exists fs pq_pivots_path
      then Inl (ANNException ''PQ k-means pivot file not found'')
      else
        case load_bin_u64 fs pq_pivots_path 0 of
          Inl e \<Rightarrow> Inl e
        | Inr (file_offset_data, nr, nc) \<Rightarrow>
            if nr \<noteq> 4
            then Inl (ANNException ''Error reading pq_pivots file at offsets data.'')
            else if length file_offset_data < 3 then Inl OutOfBounds
            else
              case load_bin_float fs pq_pivots_path (file_offset_data ! 0) of
                Inl e \<Rightarrow> Inl e
              | Inr (piv, nr, nc) \<Rightarrow>
                  if nr \<noteq> num_centers \<or> nc \<noteq> dimn
                  then Inl (ANNException ''Error reading pq_pivots file at pivots data.'')
                  else
                    case load_bin_float fs pq_pivots_path (file_offset_data ! 1) of
                      Inl e \<Rightarrow> Inl e
                    | Inr (cen, nr, nc) \<Rightarrow>
                        if nr \<noteq> dimn \<or> nc \<noteq> 1
                        then Inl (ANNException
                                    ''Error reading pq_pivots file at centroid data.'')
                        else
                          case load_bin_u32 fs pq_pivots_path (file_offset_data ! 2) of
                            Inl e \<Rightarrow> Inl e
                          | Inr (offs, nr, nc) \<Rightarrow>
                              if nr \<noteq> num_pq_chunks + 1 \<or> nc \<noteq> 1
                              then Inl (ANNException
                                          ''Error reading pq_pivots file at chunk offsets.'')
                              else load_encoder_rotation fs pq_pivots_path dimn use_opq
                                     \<lparr>e_full_pivot_data = piv, e_centroid = cen,
                                      e_chunk_offsets = offs, e_rotmat_tr = []\<rparr>)"

definition read_base_header :: "'a filesystem \<Rightarrow> string \<Rightarrow> exn + 'a blob" where
  "read_base_header fs data_file =
     (case fs data_file of
        None \<Rightarrow> Inl FileReadError
      | Some f \<Rightarrow> (case f 0 of None \<Rightarrow> Inl FileReadError | Some b \<Rightarrow> Inr b))"

definition generate_pq_data_from_pivots ::
  "('a encoder_pivots \<Rightarrow> 'a blob \<Rightarrow> 'a filesystem \<Rightarrow> exn + int \<times> 'a filesystem) \<Rightarrow>
   'a filesystem \<Rightarrow> string \<Rightarrow> nat \<Rightarrow> nat \<Rightarrow> string \<Rightarrow> bool \<Rightarrow> exn + int \<times> 'a filesystem" where
  "generate_pq_data_from_pivots encode_blocks fs data_file num_centers num_pq_chunks
     pq_pivots_path use_opq =
     (case read_base_header fs data_file of
        Inl e \<Rightarrow> Inl e
      | Inr base \<Rightarrow>
          (case load_encoder_pivots fs (cols base) num_centers num_pq_chunks
                  pq_pivots_path use_opq of
             Inl e \<Rightarrow> Inl e
           | Inr pv \<Rightarrow> encode_blocks pv base fs))"

subsection \<open>Distance tables of a query\<close>

text \<open>
  \<^verbatim>\<open>populate_chunk_distances\<close> (lines 189-204) and
  \<^verbatim>\<open>populate_chunk_inner_products\<close> (lines 244-265) on a loaded table \<open>this\<close>; the
  three nested loops are, from the inside, \<open>_center\<close>, \<open>_dim\<close> and \<open>_chunk\<close>. The
  product of two floats is exact in \<^verbatim>\<open>double\<close>, so \<^verbatim>\<open>(float) (diff * diff)\<close> is the
  float product; the product of the inner products is a float product widened and
  narrowed again.
\<close>

definition chunk_dists_center ::
  "'a::{plus,minus,times} FixedChunkPQTable \<Rightarrow> 'a list \<Rightarrow> nat \<Rightarrow> nat \<Rightarrow> 'a list \<Rightarrow> nat \<Rightarrow> 'a list option" where
  "chunk_dists_center this query_vec chunk j dist_vec idx =
     (if 256 * j + idx < length (tables_tr this) \<and> j < length query_vec \<and>
         256 * chunk + idx < length dist_vec then
        (let diff = tables_tr this ! (256 * j + idx) - query_vec ! j in
         Some (dist_vec[256 * chunk + idx := dist_vec ! (256 * chunk + idx) + diff * diff]))
      else None)"

definition chunk_dists_dim ::
  "'a::{plus,minus,times} FixedChunkPQTable \<Rightarrow> 'a list \<Rightarrow> nat \<Rightarrow> 'a list \<Rightarrow> nat \<Rightarrow> 'a list option" where
  "chunk_dists_dim this query_vec chunk dist_vec j =
     fold_opt (chunk_dists_center this query_vec chunk j) [0..<256] dist_vec"

definition chunk_dists_chunk ::
  "'a::{plus,minus,times} FixedChunkPQTable \<Rightarrow> 'a list \<Rightarrow> 'a list \<Rightarrow> nat \<Rightarrow> 'a list option" where
  "chunk_dists_chunk this query_vec dist_vec chunk =
     (if chunk + 1 < length (chunk_offsets this) then
        fold_opt (chunk_dists_dim this query_vec chunk)
          [chunk_offsets this ! chunk..<chunk_offsets this ! (chunk + 1)] dist_vec
      else None)"

definition populate_chunk_distances ::
  "'a::{zero,plus,minus,times} FixedChunkPQTable \<Rightarrow> 'a list \<Rightarrow> 'a list \<Rightarrow> 'a list option" where
  "populate_chunk_distances this query_vec dist_vec =
     (case memset_zero (256 * n_chunks this) dist_vec of
        None \<Rightarrow> None
      | Some z \<Rightarrow> fold_opt (chunk_dists_chunk this query_vec) [0..<n_chunks this] z)"

definition chunk_ips_center ::
  "'a::{minus,times} FixedChunkPQTable \<Rightarrow> 'a list \<Rightarrow> nat \<Rightarrow> nat \<Rightarrow> 'a list \<Rightarrow> nat \<Rightarrow> 'a list option" where
  "chunk_ips_center this query_vec chunk j dist_vec idx =
     (if 256 * j + idx < length (tables_tr this) \<and> j < length query_vec \<and>
         256 * chunk + idx < length dist_vec then
        (let prod = tables_tr this ! (256 * j + idx) * query_vec ! j in
         Some (dist_vec[256 * chunk + idx := dist_vec ! (256 * chunk + idx) - prod]))
      else None)"

definition chunk_ips_dim ::
  "'a::{minus,times} FixedChunkPQTable \<Rightarrow> 'a list \<Rightarrow> nat \<Rightarrow> 'a list \<Rightarrow> nat \<Rightarrow> 'a list option" where
  "chunk_ips_dim this query_vec chunk dist_vec j =
     fold_opt (chunk_ips_center this query_vec chunk j) [0..<256] dist_vec"

definition chunk_ips_chunk ::
  "'a::{minus,times} FixedChunkPQTable \<Rightarrow> 'a list \<Rightarrow> 'a list \<Rightarrow> nat \<Rightarrow> 'a list option" where
  "chunk_ips_chunk this query_vec dist_vec chunk =
     (if chunk + 1 < length (chunk_offsets this) then
        fold_opt (chunk_ips_dim this query_vec chunk)
          [chunk_offsets this ! chunk..<chunk_offsets this ! (chunk + 1)] dist_vec
      else None)"

definition populate_chunk_inner_products ::
  "'a::{zero,minus,times} FixedChunkPQTable \<Rightarrow> 'a list \<Rightarrow> 'a list \<Rightarrow> 'a list option" where
  "populate_chunk_inner_products this query_vec dist_vec =
     (case memset_zero (256 * n_chunks this) dist_vec of
        None \<Rightarrow> None
      | Some z \<Rightarrow> fold_opt (chunk_ips_chunk this query_vec) [0..<n_chunks this] z)"

subsection \<open>The trainers\<close>

text \<open>
  \<^verbatim>\<open>generate_pq_pivots\<close> (lines 299-462) and \<^verbatim>\<open>generate_opq_pivots\<close> (lines
  464-685). A run ends by returning a value, by throwing, by \<^verbatim>\<open>exit\<close>, or in
  undefined behaviour; it is given with the arrays of the call as they are at that point
  and the file system. The messages written to \<^verbatim>\<open>diskann::cout\<close> are not modelled.
\<close>

datatype 'r ending = Returns 'r | Throws exn | Exits int | Undefined

text \<open>
  What the trainers call and the sources at hand do not define: k-means++ seeding and
  Lloyd's iterations (\<^verbatim>\<open>run_lloyds\<close> gives the new centers and
  \<^verbatim>\<open>closest_center\<close>), the conversion of \<^verbatim>\<open>num_train\<close> to a float, the matrix
  product (with \<^verbatim>\<open>alpha = 1\<close>, \<^verbatim>\<open>beta = 0\<close>; the flag says whether the first
  matrix is transposed) and the singular value decomposition (its status, then the
  contents of \<^verbatim>\<open>a\<close>, \<^verbatim>\<open>s\<close>, \<^verbatim>\<open>u\<close> and \<^verbatim>\<open>vt\<close>). They are parameters: each
  gives what it writes through the pointers it is passed as a function of what it reads.
\<close>

record 'a externals =
  kmeanspp_selecting_pivots :: "'a list \<Rightarrow> nat \<Rightarrow> nat \<Rightarrow> nat \<Rightarrow> 'a list"
  run_lloyds :: "'a list \<Rightarrow> nat \<Rightarrow> nat \<Rightarrow> 'a list \<Rightarrow> nat \<Rightarrow> nat \<Rightarrow> 'a list \<times> nat list"
  float_of_size :: "nat \<Rightarrow> 'a"
  cblas_sgemm :: "bool \<Rightarrow> nat \<Rightarrow> nat \<Rightarrow> nat \<Rightarrow> 'a list \<Rightarrow> 'a list \<Rightarrow> 'a list"
  LAPACKE_sgesdd :: "nat \<Rightarrow> 'a list \<Rightarrow> int \<times> 'a list \<times> 'a list \<times> 'a list \<times> 'a list"

text \<open>
  The arrays of a call. \<open>passed_train_data\<close> is the caller's; every other one is
  allocated by the trainer (\<^verbatim>\<open>std::make_unique\<close>, \<^verbatim>\<open>new\<close>, \<^verbatim>\<open>std::vector\<close>), so no
  two of them overlap, and is empty until then. \<open>centroid_buf\<close>,
  \<open>chunk_offsets_vec\<close> and \<open>rotmat_tr_buf\<close> are the source's \<^verbatim>\<open>centroid\<close>,
  \<^verbatim>\<open>chunk_offsets\<close> and \<^verbatim>\<open>rotmat_tr\<close>.
\<close>

record 'a trainer_mem =
  passed_train_data :: "'a list"
  train_data :: "'a list"
  centroid_buf :: "'a list"
  full_pivot_data :: "'a list"
  chunk_offsets_vec :: "nat list"
  rotated_train_data :: "'a list"
  rotated_and_quantized_train_data :: "'a list"
  rotmat_tr_buf :: "'a list"
  Umat :: "'a list"
  Vmat_T :: "'a list"
  singular_values :: "'a list"
  correlation_matrix :: "'a list"

text \<open>
  \<open>written buffer res\<close>: a callee has written \<open>res\<close> into the caller's \<open>buffer\<close>,
  which keeps its size. \<open>memcpy dst d src s n\<close> copies \<open>n\<close> cells from \<open>src + s\<close> to
  \<open>dst + d\<close>; the copies of the trainers lie inside their arrays, the chunk offsets
  being at most \<open>dim\<close>.
\<close>

definition written :: "'a list \<Rightarrow> 'a list \<Rightarrow> 'a list" where
  "written buffer res = take (length buffer) res @ drop (length res) buffer"

definition memcpy :: "'a list \<Rightarrow> nat \<Rightarrow> 'a list \<Rightarrow> nat \<Rightarrow> nat \<Rightarrow> 'a list" where
  "memcpy dst d src s n =
     map (\<lambda>k. if d \<le> k \<and> k < d + n then src ! (s + (k - d)) else dst ! k) [0..<length dst]"

definition entry_memory :: "'a list \<Rightarrow> 'a trainer_mem" where
  "entry_memory passed =
     \<lparr>passed_train_data = passed, train_data = [], centroid_buf = [], full_pivot_data = [],
      chunk_offsets_vec = [], rotated_train_data = [], rotated_and_quantized_train_data = [],
      rotmat_tr_buf = [], Umat = [], Vmat_T = [], singular_values = [],
      correlation_matrix = []\<rparr>"

text \<open>
  Lines 309-312: the private copy. \<^verbatim>\<open>std::make_unique<float[]>(n)\<close> gives zeros. The
  loop that compares the copy with the original only prints.
\<close>

definition copy_train_data :: "nat \<Rightarrow> nat \<Rightarrow> 'a::zero trainer_mem \<Rightarrow> 'a trainer_mem" where
  "copy_train_data num_train dimn mem =
     mem\<lparr>train_data := memcpy (replicate (num_train * dimn) 0) 0 (passed_train_data mem) 0
                           (num_train * dimn)\<rparr>"

text \<open>
  Lines 335-356: the mean of every column, and its subtraction from the copy. Each pass
  of the loops writes one cell of its own.
\<close>

definition column_mean ::
  "'a::{zero,plus,inverse} externals \<Rightarrow> 'a list \<Rightarrow> nat \<Rightarrow> nat \<Rightarrow> nat \<Rightarrow> 'a" where
  "column_mean ext data num_train dimn d =
     foldl (\<lambda>c p. c + data ! (p * dimn + d)) 0 [0..<num_train] / float_of_size ext num_train"

definition center_train_data ::
  "'a::{zero,plus,minus,inverse} externals \<Rightarrow> nat \<Rightarrow> nat \<Rightarrow> bool \<Rightarrow> 'a trainer_mem \<Rightarrow> 'a trainer_mem" where
  "center_train_data ext num_train dimn make_zero_mean mem =
     (if make_zero_mean then
        (let cen = map (column_mean ext (train_data mem) num_train dimn) [0..<dimn] in
         mem\<lparr>centroid_buf := cen,
             train_data := map (\<lambda>k. if k < num_train * dimn
                                      then train_data mem ! k - cen ! (k mod dimn)
                                      else train_data mem ! k)
                             [0..<length (train_data mem)]\<rparr>)
      else mem\<lparr>centroid_buf := replicate dimn 0\<rparr>)"

text \<open>
  Lines 403-439, the body of the loop over the chunks: \<open>chunk_slice\<close> gathers the
  columns of a chunk, \<open>store_chunk\<close> writes the pivots of a chunk back into their columns.
  \<^verbatim>\<open>new float[num_centers * dim]\<close> is not initialised.
\<close>

definition chunk_slice :: "'a list \<Rightarrow> nat \<Rightarrow> nat \<Rightarrow> nat \<Rightarrow> nat \<Rightarrow> 'a list" where
  "chunk_slice data num_rows dimn start cur_chunk_size =
     concat (map (\<lambda>j. map (\<lambda>k. data ! (j * dimn + start + k)) [0..<cur_chunk_size])
               [0..<num_rows])"

definition store_chunk :: "'a list \<Rightarrow> nat \<Rightarrow> nat \<Rightarrow> nat \<Rightarrow> nat \<Rightarrow> 'a list \<Rightarrow> 'a list" where
  "store_chunk full num_rows dimn start cur_chunk_size cur =
     foldl (\<lambda>full j. memcpy full (j * dimn + start) cur (j * cur_chunk_size) cur_chunk_size)
       full [0..<num_rows]"

definition train_chunk ::
  "'a::zero externals \<Rightarrow> nat \<Rightarrow> nat \<Rightarrow> nat \<Rightarrow> nat \<Rightarrow> 'a trainer_mem \<Rightarrow> nat \<Rightarrow> 'a trainer_mem" where
  "train_chunk ext num_train dimn num_centers max_k_means_reps mem i =
     (let cur_chunk_size = chunk_offsets_vec mem ! (i + 1) - chunk_offsets_vec mem ! i in
      if cur_chunk_size = 0 then mem
      else
        let cur_data = chunk_slice (train_data mem) num_train dimn (chunk_offsets_vec mem ! i)
                         cur_chunk_size;
            cur_pivot_data =
              written (replicate (num_centers * cur_chunk_size) 0)
                (kmeanspp_selecting_pivots ext cur_data num_train cur_chunk_size num_centers);
            cur_pivot_data =
              written cur_pivot_data
                (fst (run_lloyds ext cur_data num_train cur_chunk_size cur_pivot_data
                        num_centers max_k_means_reps))
        in mem\<lparr>full_pivot_data :=
                 store_chunk (full_pivot_data mem) num_centers dimn (chunk_offsets_vec mem ! i)
                   cur_chunk_size cur_pivot_data\<rparr>)"

text \<open>Lines 441-456: the four blocks, the table of offsets last, at offset 0.\<close>

definition save_pivots ::
  "nat \<Rightarrow> 'a filesystem \<Rightarrow> string \<Rightarrow> nat \<Rightarrow> nat \<Rightarrow> 'a trainer_mem \<Rightarrow> 'a filesystem" where
  "save_pivots METADATA_SIZE fs pivots_path num_centers dimn mem =
     (let c0 = METADATA_SIZE;
          (fs, n) = save_bin fs pivots_path (Floats (full_pivot_data mem)) num_centers dimn c0;
          c1 = c0 + n;
          (fs, n) = save_bin fs pivots_path (Floats (centroid_buf mem)) dimn 1 c1;
          c2 = c1 + n;
          (fs, n) = save_bin fs pivots_path (U32s (chunk_offsets_vec mem))
                      (length (chunk_offsets_vec mem)) 1 c2;
          c3 = c2 + n;
          (fs, n) = save_bin fs pivots_path (U64s [c0, c1, c2, c3]) 4 1 0
      in fs)"

text \<open>
  Lines 323-332: an existing file is read at \<^verbatim>\<open>METADATA_SIZE\<close> into
  \<^verbatim>\<open>full_pivot_data\<close>; the flag says whether its shape is the one asked for.
  \<^verbatim>\<open>METADATA_SIZE\<close> is a macro of a header that is not part of the sources at hand: a
  parameter.
\<close>

definition check_existing_pivots ::
  "nat \<Rightarrow> 'a filesystem \<Rightarrow> string \<Rightarrow> nat \<Rightarrow> nat \<Rightarrow> 'a trainer_mem \<Rightarrow> exn + bool \<times> 'a trainer_mem" where
  "check_existing_pivots METADATA_SIZE fs pq_pivots_path dimn num_centers mem =
     (if file_exists fs pq_pivots_path then
        (case load_bin_float fs pq_pivots_path METADATA_SIZE of
           Inl e \<Rightarrow> Inl e
         | Inr (piv, file_num_centers, file_dim) \<Rightarrow>
             Inr (file_dim = dimn \<and> file_num_centers = num_centers,
                  mem\<lparr>full_pivot_data := piv\<rparr>))
      else Inr (False, mem))"

definition generate_pq_pivots ::
  "'a::{zero,plus,minus,inverse} externals \<Rightarrow> nat \<Rightarrow> 'a list \<Rightarrow> nat \<Rightarrow> nat \<Rightarrow> nat \<Rightarrow> nat \<Rightarrow> nat \<Rightarrow>
   string \<Rightarrow> bool \<Rightarrow> 'a filesystem \<Rightarrow> int ending \<times> 'a trainer_mem \<times> 'a filesystem" where
  "generate_pq_pivots ext METADATA_SIZE passed num_train dimn num_centers num_pq_chunks
     max_k_means_reps pq_pivots_path make_zero_mean fs =
     (let mem = entry_memory passed in
      if num_pq_chunks > dimn then (Returns (- 1), mem, fs)
      else if length passed < num_train * dimn then (Undefined, mem, fs)
      else
        let mem = copy_train_data num_train dimn mem in
        case check_existing_pivots METADATA_SIZE fs pq_pivots_path dimn num_centers mem of
          Inl e \<Rightarrow> (Throws e, mem, fs)
        | Inr (skip, mem) \<Rightarrow>
            if skip then (Returns (- 1), mem, fs)
            else
              let mem = center_train_data ext num_train dimn make_zero_mean mem in
              case compute_chunk_offsets dimn num_pq_chunks of
                None \<Rightarrow> (Undefined, mem, fs)
              | Some offs \<Rightarrow>
                  let mem = mem\<lparr>chunk_offsets_vec := offs,
                                 full_pivot_data := replicate (num_centers * dimn) undefined\<rparr>;
                      mem = foldl (train_chunk ext num_train dimn num_centers max_k_means_reps)
                              mem [0..<num_pq_chunks]
                  in (Returns 0, mem,
                      save_pivots METADATA_SIZE fs pq_pivots_path num_centers dimn mem))"

text \<open>
  The rounds of \<^verbatim>\<open>generate_opq_pivots\<close> (lines 569-658); \<open>opq_chunk\<close> is the body of
  the loop over the chunks (lines 577-631). \<^verbatim>\<open>errcode\<close> is the status as a 32-bit
  unsigned value. \<^verbatim>\<open>MAX_OPQ_ITERS\<close>, of the same absent header, is a parameter.
\<close>

definition opq_chunk ::
  "'a::zero externals \<Rightarrow> nat \<Rightarrow> nat \<Rightarrow> nat \<Rightarrow> nat \<Rightarrow> 'a trainer_mem \<Rightarrow> nat \<Rightarrow> 'a trainer_mem" where
  "opq_chunk ext num_train dimn num_centers rnd mem i =
     (let cur_chunk_size = chunk_offsets_vec mem ! (i + 1) - chunk_offsets_vec mem ! i in
      if cur_chunk_size = 0 then mem
      else
        let cur_data = chunk_slice (rotated_train_data mem) num_train dimn
                         (chunk_offsets_vec mem ! i) cur_chunk_size;
            cur_pivot_data =
              (if rnd = 0 then
                 written (replicate (num_centers * cur_chunk_size) 0)
                   (kmeanspp_selecting_pivots ext cur_data num_train cur_chunk_size num_centers)
               else chunk_slice (full_pivot_data mem) num_centers dimn
                      (chunk_offsets_vec mem ! i) cur_chunk_size);
            lloyds = run_lloyds ext cur_data num_train cur_chunk_size cur_pivot_data
                       num_centers 8;
            cur_pivot_data = written cur_pivot_data (fst lloyds);
            closest_center = written (replicate num_train 0) (snd lloyds)
        in mem\<lparr>full_pivot_data :=
                 store_chunk (full_pivot_data mem) num_centers dimn (chunk_offsets_vec mem ! i)
                   cur_chunk_size cur_pivot_data,
               rotated_and_quantized_train_data :=
                 foldl (\<lambda>rq j. memcpy rq (j * dimn + chunk_offsets_vec mem ! i) cur_pivot_data
                                  (closest_center ! j * cur_chunk_size) cur_chunk_size)
                   (rotated_and_quantized_train_data mem) [0..<num_train]\<rparr>)"



subsection \<open>Notions used in the proofs\<close>

text \<open>
  The bins fill in order: the first \<open>r\<close> bins to \<open>low + 1\<close>, the others to
  \<open>low\<close>. \<open>filling M low r a c\<close> holds while bin \<open>a\<close> is being filled and has
  \<open>c\<close> dimensions; \<open>offset_at r low b\<close> is the number of dimensions in the bins before
  \<open>b\<close> once they are full.
\<close>

definition target_width :: "nat \<Rightarrow> nat \<Rightarrow> nat \<Rightarrow> nat" where
  "target_width r low b = (if b < r then low + 1 else low)"

definition filling :: "nat \<Rightarrow> nat \<Rightarrow> nat \<Rightarrow> nat \<Rightarrow> nat \<Rightarrow> partition_state \<Rightarrow> bool" where
  "filling M low r a c st \<longleftrightarrow>
     a < M \<and> c < target_width r low a \<and>
     map length (bin_to_dims st) =
       map (target_width r low) [0..<a] @ c # replicate (M - a - 1) 0 \<and>
     cur_bin_threshold st = target_width r low a \<and>
     cur_num_high st = (if r = 0 then a else min a r)"

definition filled :: "nat \<Rightarrow> nat \<Rightarrow> nat \<Rightarrow> partition_state \<Rightarrow> bool" where
  "filled M low r st \<longleftrightarrow> map length (bin_to_dims st) = map (target_width r low) [0..<M]"

definition offset_at :: "nat \<Rightarrow> nat \<Rightarrow> nat \<Rightarrow> nat" where
  "offset_at r low b = b * low + min b r"

text \<open>
  Of the calls of a run: the number of descriptors the kernel accepted, and the number of
  calls that returned a count (an attempt), as opposed to an error.
\<close>

definition accepted :: "syscall list \<Rightarrow> int" where
  "accepted tr = sum_list (map (\<lambda>c. max 0 (result c)) tr)"

definition attempts :: "syscall list \<Rightarrow> nat" where
  "attempts tr = length (filter (\<lambda>c. 0 \<le> result c) tr)"

text \<open>
  A well-formed pivot file (section 6.1 of the specification): the table of offsets at 0,
  with four entries or, in the legacy layout, five; the centroids \<open>C\<close> (\<open>K\<close> by
  \<open>D\<close>) at entry 0, the mean \<open>mu\<close> at entry 1, and the chunk offsets \<open>co\<close> at entry
  2, or at entry 3 in the legacy layout.
\<close>

definition pivot_file ::
  "'a binfile \<Rightarrow> bool \<Rightarrow> nat list \<Rightarrow> nat \<Rightarrow> 'a list \<Rightarrow> nat \<Rightarrow> 'a list \<Rightarrow> nat list \<Rightarrow> bool" where
  "pivot_file f legacy offs K C D mu co \<longleftrightarrow>
     length offs = (if legacy then 5 else 4) \<and>
     f 0 = Some \<lparr>rows = length offs, cols = 1, payload = U64s offs\<rparr> \<and>
     f (offs ! 0) = Some \<lparr>rows = K, cols = D, payload = Floats C\<rparr> \<and> length C = K * D \<and>
     f (offs ! 1) = Some \<lparr>rows = D, cols = 1, payload = Floats mu\<rparr> \<and> length mu = D \<and>
     f (offs ! (if legacy then 3 else 2))
       = Some \<lparr>rows = length co, cols = 1, payload = U32s co\<rparr>"

text \<open>
  A table object before loading, and a disk with a legacy pivot file for \<open>D = 2\<close> and
  two chunks (the block at entry 2 is the extra one) beside a base file of one point.
\<close>

definition empty_table :: "'a FixedChunkPQTable" where
  "empty_table = \<lparr>tables = [], tables_tr = [], ndims = 0, n_chunks = 0, chunk_offsets = [],
                   centroid = [], rotmat_tr = [], use_rotation = False\<rparr>"

definition legacy_pivots :: "real binfile" where
  "legacy_pivots =
     [0 \<mapsto> \<lparr>rows = 5, cols = 1, payload = U64s [4096, 6152, 6168, 6184, 6204]\<rparr>,
      4096 \<mapsto> \<lparr>rows = 256, cols = 2, payload = Floats (map real [0..<512])\<rparr>,
      6152 \<mapsto> \<lparr>rows = 2, cols = 1, payload = Floats [0, 0]\<rparr>,
      6168 \<mapsto> \<lparr>rows = 2, cols = 1, payload = U32s [0, 1]\<rparr>,
      6184 \<mapsto> \<lparr>rows = 3, cols = 1, payload = U32s [0, 1, 2]\<rparr>]"

definition legacy_disk :: "real filesystem" where
  "legacy_disk =
     [''pq_pivots.bin'' \<mapsto> legacy_pivots,
      ''base.bin'' \<mapsto> [0 \<mapsto> \<lparr>rows = 1, cols = 2, payload = Floats [3, 4]\<rparr>]]"

text \<open>A table of one chunk over one dimension, with the centroids \<open>0, ..., 255\<close>.\<close>

definition one_chunk_table :: "int FixedChunkPQTable" where
  "one_chunk_table = \<lparr>tables = map int [0..<256], tables_tr = map int [0..<256], ndims = 1,
      n_chunks = 1, chunk_offsets = [0, 1], centroid = [0], rotmat_tr = [],
      use_rotation = False\<rparr>"

text \<open>Externals for the examples: the seeds are the first points, Lloyd's iterations
  keep the centers, and the decomposition reports convergence.\<close>

definition idle_externals :: "real externals" where
  "idle_externals =
     \<lparr>kmeanspp_selecting_pivots = (\<lambda>data n w k. take (k * w) data),
      run_lloyds = (\<lambda>data n w centers k reps. (centers, replicate n 0)),
      float_of_size = real,
      cblas_sgemm = (\<lambda>ta m n k a b. replicate (m * n) 0),
      LAPACKE_sgesdd = (\<lambda>n a. (0, a, replicate n 0, a, a))\<rparr>"


text \<open>
  The sibling rotation file of a pivot file is absent, or holds a \<open>D\<close> by \<open>D\<close> matrix
  of floats at offset 0: the two cases in which the loader does not throw on it.
\<close>

definition rotation_file_fits :: "'a filesystem \<Rightarrow> string \<Rightarrow> nat \<Rightarrow> bool" where
  "rotation_file_fits fs pivots_path dimn \<longleftrightarrow>
     (case fs (pivots_path @ ''_rotation_matrix.bin'') of
        None \<Rightarrow> True
      | Some g \<Rightarrow>
          (case g 0 of
             None \<Rightarrow> False
           | Some b \<Rightarrow>
               rows b = dimn \<and> cols b = dimn \<and>
               (case payload b of Floats R \<Rightarrow> length R = dimn * dimn | _ \<Rightarrow> False)))"

section \<open>Properties\<close>

subsection \<open>Loops that can fail\<close>

lemma fold_opt_snoc:
  "fold_opt f (xs @ [x]) s = (case fold_opt f xs s of None \<Rightarrow> None | Some s' \<Rightarrow> f s' x)"
  by (induction xs arbitrary: s) (auto split: option.splits)

subsection \<open>The lookup sum\<close>

lemma code_index_bound:
  fixes i c n M :: nat
  assumes "i < n" "c < M"
  shows "M * i + c < n * M"
proof -
  have "M * i + c < M * Suc i" using assms(2) by simp
  also have "\<dots> \<le> M * n" using assms(1) by (intro mult_le_mono2) simp
  finally show ?thesis by (simp add: mult.commute)
qed

lemma lookup_chunk_prefix:
  fixes d :: "'a::plus list"
  assumes "n_pts \<le> length d" "n_pts * M \<le> length pq_ids" "256 * M \<le> length pq_dists"
    and "chunk < M"
  shows "k \<le> n_pts \<Longrightarrow>
    \<exists>d'. fold_opt (lookup_point pq_ids M pq_dists chunk) [0..<k] d = Some d' \<and>
      length d' = length d \<and>
      (\<forall>i<length d. d' ! i =
         (if i < k then d ! i + pq_dists ! (256 * chunk + unat (pq_ids ! (M * i + chunk)))
          else d ! i))"
proof (induction k)
  case 0
  then show ?case by simp
next
  case (Suc k)
  then obtain d' where d': "fold_opt (lookup_point pq_ids M pq_dists chunk) [0..<k] d = Some d'"
    "length d' = length d"
    "\<forall>i<length d. d' ! i =
         (if i < k then d ! i + pq_dists ! (256 * chunk + unat (pq_ids ! (M * i + chunk)))
          else d ! i)"
    by auto
  have k: "k < n_pts" using Suc.prems by simp
  have a: "M * k + chunk < length pq_ids"
    using code_index_bound [OF k assms(4)] assms(2) by simp
  have "unat (pq_ids ! (M * k + chunk)) < 256"
    using unsigned_less [of "pq_ids ! (M * k + chunk)", where ?'a = nat] by simp
  then have b: "256 * chunk + unat (pq_ids ! (M * k + chunk)) < length pq_dists"
    using assms(3,4) by simp
  have c: "k < length d'" using k assms(1) d'(2) by simp
  have dk: "d' ! k = d ! k" using d'(3) c d'(2) by simp
  let ?v = "d' ! k + pq_dists ! (256 * chunk + unat (pq_ids ! (M * k + chunk)))"
  have step: "lookup_point pq_ids M pq_dists chunk d' k = Some (d'[k := ?v])"
    using a b c by (simp add: lookup_point_def)
  have run: "fold_opt (lookup_point pq_ids M pq_dists chunk) [0..<Suc k] d = Some (d'[k := ?v])"
    using d'(1) step by (simp add: fold_opt_snoc)
  have vals: "\<forall>i<length d. (d'[k := ?v]) ! i =
         (if i < Suc k then d ! i + pq_dists ! (256 * chunk + unat (pq_ids ! (M * i + chunk)))
          else d ! i)"
    using d'(2,3) dk by (auto simp: nth_list_update less_Suc_eq)
  show ?case using run vals d'(2) by simp
qed

lemma lookup_chunk_result:
  fixes d :: "'a::plus list"
  assumes "n_pts \<le> length d" "n_pts * M \<le> length pq_ids" "256 * M \<le> length pq_dists"
    and "chunk < M"
  shows "\<exists>d'. lookup_chunk pq_ids n_pts M pq_dists d chunk = Some d' \<and>
      length d' = length d \<and>
      (\<forall>i<length d. d' ! i =
         (if i < n_pts then d ! i + pq_dists ! (256 * chunk + unat (pq_ids ! (M * i + chunk)))
          else d ! i))"
  unfolding lookup_chunk_def using lookup_chunk_prefix [OF assms, of n_pts] by simp

lemma lookup_chunks_prefix:
  fixes z :: "'a::plus list"
  assumes "n_pts \<le> length z" "n_pts * M \<le> length pq_ids" "256 * M \<le> length pq_dists"
  shows "m \<le> M \<Longrightarrow>
    \<exists>d'. fold_opt (lookup_chunk pq_ids n_pts M pq_dists) [0..<m] z = Some d' \<and>
      length d' = length z \<and>
      (\<forall>i<length z. d' ! i =
         (if i < n_pts
          then foldl (+) (z ! i)
                 (map (\<lambda>c. pq_dists ! (256 * c + unat (pq_ids ! (M * i + c)))) [0..<m])
          else z ! i))"
proof (induction m)
  case 0
  then show ?case by simp
next
  case (Suc m)
  then obtain d' where d': "fold_opt (lookup_chunk pq_ids n_pts M pq_dists) [0..<m] z = Some d'"
    "length d' = length z"
    "\<forall>i<length z. d' ! i =
         (if i < n_pts
          then foldl (+) (z ! i)
                 (map (\<lambda>c. pq_dists ! (256 * c + unat (pq_ids ! (M * i + c)))) [0..<m])
          else z ! i)"
    by auto
  have m: "m < M" using Suc.prems by simp
  have len: "n_pts \<le> length d'" using assms(1) d'(2) by simp
  obtain d'' where d'': "lookup_chunk pq_ids n_pts M pq_dists d' m = Some d''"
    "length d'' = length d'"
    "\<forall>i<length d'. d'' ! i =
         (if i < n_pts then d' ! i + pq_dists ! (256 * m + unat (pq_ids ! (M * i + m)))
          else d' ! i)"
    using lookup_chunk_result [OF len assms(2,3) m] by auto
  have run: "fold_opt (lookup_chunk pq_ids n_pts M pq_dists) [0..<Suc m] z = Some d''"
    using d'(1) d''(1) by (simp add: fold_opt_snoc)
  have vals: "\<forall>i<length z. d'' ! i =
         (if i < n_pts
          then foldl (+) (z ! i)
                 (map (\<lambda>c. pq_dists ! (256 * c + unat (pq_ids ! (M * i + c)))) [0..<Suc m])
          else z ! i)"
    using d'(2,3) d''(3) by simp
  show ?case using run vals d'(2) d''(2) by simp
qed

text \<open>
  Claim C4, as the code has it. The row stride of the chunk-distance table is the constant
  256, not a parameter \<open>K\<close>: when the output, the code array and the table are large
  enough (\<open>n\<close> outputs, \<open>n * M\<close> codes, \<open>256 * M\<close> distances), \<open>pq_dist_lookup\<close>
  returns, and every \<open>out[i]\<close> with \<open>i < n\<close> is the sum, accumulated from zero for
  \<open>c = 0, ..., M - 1\<close> in this order, of \<open>pq_dists[256 * c + pq_ids[M * i + c]]\<close>.
\<close>

theorem pq_dist_lookup_sum:
  fixes pq_dists dists_out :: "'a::{zero,plus} list"
  assumes "n_pts \<le> length dists_out" "n_pts * M \<le> length pq_ids" "256 * M \<le> length pq_dists"
  shows "\<exists>out. pq_dist_lookup pq_ids n_pts M pq_dists dists_out = Some out \<and>
      length out = length dists_out \<and>
      (\<forall>i<n_pts. out ! i =
         foldl (+) 0 (map (\<lambda>c. pq_dists ! (256 * c + unat (pq_ids ! (M * i + c)))) [0..<M]))"
proof -
  let ?z = "replicate n_pts (0::'a) @ drop n_pts dists_out"
  have z: "memset_zero n_pts dists_out = Some ?z"
    using assms(1) by (simp add: memset_zero_def)
  have len: "n_pts \<le> length ?z" "length ?z = length dists_out" using assms(1) by simp_all
  obtain out where out: "fold_opt (lookup_chunk pq_ids n_pts M pq_dists) [0..<M] ?z = Some out"
    "length out = length ?z"
    "\<forall>i<length ?z. out ! i =
         (if i < n_pts
          then foldl (+) (?z ! i)
                 (map (\<lambda>c. pq_dists ! (256 * c + unat (pq_ids ! (M * i + c)))) [0..<M])
          else ?z ! i)"
    using lookup_chunks_prefix [OF len(1) assms(2,3), of M] by auto
  have "\<forall>i<n_pts. out ! i =
         foldl (+) 0 (map (\<lambda>c. pq_dists ! (256 * c + unat (pq_ids ! (M * i + c)))) [0..<M])"
    using out(3) len assms(1) by (auto simp: nth_append)
  then show ?thesis
    using z out(1,2) len(2) by (simp add: pq_dist_lookup_def)
qed

text \<open>
  The scenario of the specification with the rows laid out at stride 256: \<open>M = 3\<close>,
  \<open>pq_dists[256 * c + k] = 10 * c + k\<close> and the codes \<open>[[1,2,3],[0,0,0]]\<close> give
  \<open>[36, 30]\<close>, whatever the output buffer held before.
\<close>

theorem pq_dist_lookup_sum_witness:
  "pq_dist_lookup [1, 2, 3, 0, 0, 0] 2 3
     (concat (map (\<lambda>c. map (\<lambda>k. int c * 10 + int k) [0..<256]) [0..<3])) [7, 7]
   = Some [36, 30]"
proof -
  let ?ids = "[1, 2, 3, 0, 0, 0] :: 8 word list"
  let ?t = "concat (map (\<lambda>c. map (\<lambda>k. int c * 10 + int k) [0..<256]) [0..<3])"
  have h1: "2 \<le> length [7, 7 :: int]" by simp
  have h2: "2 * 3 \<le> length ?ids" by simp
  have h3: "256 * 3 \<le> length ?t" by code_simp
  obtain out where out: "pq_dist_lookup ?ids 2 3 ?t [7, 7] = Some out"
    "length out = length [7, 7 :: int]"
    "\<forall>i<2. out ! i =
       foldl (+) 0 (map (\<lambda>c. ?t ! (256 * c + unat (?ids ! (3 * i + c)))) [0..<3])"
    using pq_dist_lookup_sum [OF h1 h2 h3] by blast
  have e0: "foldl (+) 0 (map (\<lambda>c. ?t ! (256 * c + unat (?ids ! (3 * 0 + c)))) [0..<3]) = 36"
    by code_simp
  have e1: "foldl (+) 0 (map (\<lambda>c. ?t ! (256 * c + unat (?ids ! (3 * 1 + c)))) [0..<3]) = 30"
    by code_simp
  have "out ! 0 = 36" "out ! 1 = 30"
    using out(3) e0 e1 by auto
  moreover have "length out = 2" using out(2) by simp
  ultimately have "out = [36, 30]"
    by (intro nth_equalityI) (auto simp: less_Suc_eq numeral_2_eq_2)
  then show ?thesis using out(1) by simp
qed

text \<open>
  Claim C4 as stated lets the stride be any \<open>K\<close>. With the table of the scenario laid
  out at stride \<open>K = 4\<close> (twelve entries) the code reads \<open>pq_dists[258]\<close>, outside the
  table; with the same table padded with zeros to \<open>3 * 256\<close> entries it returns
  \<open>[1, 0]\<close>. Neither is \<open>[36, 30]\<close>.
\<close>

theorem pq_dist_lookup_stride_counterexample:
  "pq_dist_lookup [1, 2, 3, 0, 0, 0] 2 3
     [0, 1, 2, 3, 10, 11, 12, 13, 20, 21, 22, 23 :: int] [0, 0] = None \<and>
   pq_dist_lookup [1, 2, 3, 0, 0, 0] 2 3
     ([0, 1, 2, 3, 10, 11, 12, 13, 20, 21, 22, 23 :: int] @ replicate 756 0) [0, 0]
     = Some [1, 0]"
  by code_simp

subsection \<open>The load-balanced chunk partition\<close>

lemma low_val_div [code]: "low_val dimn M = dimn div M"
  unfolding low_val_def by (simp add: floor_divide_of_nat_eq)

lemma high_val_div [code]:
  "high_val dimn M = (if M = 0 \<or> dimn mod M = 0 then dimn div M else dimn div M + 1)"
proof (cases "M = 0")
  case True
  then show ?thesis by (simp add: high_val_def)
next
  case False
  have "\<lceil>real dimn / real M\<rceil> = int (if dimn mod M = 0 then dimn div M else dimn div M + 1)"
  proof (cases "dimn mod M = 0")
    case True
    then have "M dvd dimn" by (simp add: mod_eq_0_iff_dvd)
    then have "real dimn / real M = real (dimn div M)"
      by (simp add: real_of_nat_div)
    then show ?thesis using True by simp
  next
    case nz: False
    have fl: "\<lfloor>real dimn / real M\<rfloor> = int (dimn div M)"
      by (simp add: floor_divide_of_nat_eq)
    have "real dimn / real M \<noteq> real_of_int \<lfloor>real dimn / real M\<rfloor>"
    proof
      assume "real dimn / real M = real_of_int \<lfloor>real dimn / real M\<rfloor>"
      then have "real dimn = real (dimn div M) * real M"
        using False fl by (simp add: field_simps)
      then have "dimn = dimn div M * M"
        by (metis of_nat_eq_iff of_nat_mult)
      then show False using nz by (metis mod_mult_self2_is_0)
    qed
    then have "\<lceil>real dimn / real M\<rceil> = \<lfloor>real dimn / real M\<rfloor> + 1"
      by (simp add: ceiling_altdef)
    then show ?thesis using nz fl by simp
  qed
  then show ?thesis using False by (simp add: high_val_def)
qed

lemma target_width_antimono: "b \<le> a \<Longrightarrow> target_width r low a \<le> target_width r low b"
  by (simp add: target_width_def)

lemma scan_prefix:
  assumes sz: "map length bins = map (target_width r low) [0..<a] @ c # rest"
    and c: "c < target_width r low a"
    and len: "length bins = M" and a: "a < M"
  shows "n \<le> M \<Longrightarrow>
    foldl (scan_bin (replicate M 0) bins (target_width r low a)) (M + 1, FLT_MAX) [0..<n] =
      (if n \<le> a then (M + 1, FLT_MAX) else (a, 0))"
proof (induction n)
  case 0
  then show ?case by simp
next
  case (Suc n)
  have n: "n < M" using Suc.prems by simp
  have ln: "length (bins ! n) = map length bins ! n" using n len by simp
  show ?case
  proof (cases "n < a")
    case True
    have "length (bins ! n) = target_width r low n"
      unfolding ln sz using True by (simp add: nth_append)
    then have "\<not> length (bins ! n) < target_width r low a"
      using target_width_antimono [of n a r low] True by simp
    then show ?thesis using Suc n True by (simp add: scan_bin_def)
  next
    case False
    show ?thesis
    proof (cases "n = a")
      case True
      have "length (bins ! n) = c"
        unfolding ln sz using True by (simp add: nth_append)
      then show ?thesis using Suc n True c by (simp add: scan_bin_def FLT_MAX_def)
    next
      case neq: False
      then have "a < n" using False by simp
      then show ?thesis using Suc n by (simp add: scan_bin_def)
    qed
  qed
qed

lemma choose_bin_filling:
  assumes "filling M low r a c st" "length (bin_to_dims st) = M"
  shows "choose_bin M (replicate M 0) (bin_to_dims st) (cur_bin_threshold st) = a"
proof -
  have a: "a < M" and c: "c < target_width r low a"
    and sz: "map length (bin_to_dims st) =
       map (target_width r low) [0..<a] @ c # replicate (M - a - 1) 0"
    and thr: "cur_bin_threshold st = target_width r low a"
    using assms(1) by (simp_all add: filling_def)
  show ?thesis
    unfolding choose_bin_def thr
    using scan_prefix [OF sz c assms(2) a, of M] a by simp
qed


lemma replicate_pred_Cons: "0 < n \<Longrightarrow> replicate n x = x # replicate (n - 1) x"
  by (cases n) simp_all

lemma place_dim_filling:
  assumes f: "filling M low r a c st" and len: "length (bin_to_dims st) = M"
    and low: "0 < low" and r: "r < M" and high: "high = (if r = 0 then low else low + 1)"
  shows "\<exists>st'. place_dim M low high r (replicate M 0) st d = Some st' \<and>
     length (bin_to_dims st') = M \<and>
     (if c + 1 < target_width r low a then filling M low r a (c + 1) st'
      else if a + 1 < M then filling M low r (a + 1) 0 st' else filled M low r st')"
proof -
  let ?tw = "target_width r low"
  let ?bins = "(bin_to_dims st)[a := bin_to_dims st ! a @ [d]]"
  have a: "a < M" and c: "c < ?tw a"
    and sz: "map length (bin_to_dims st) = map ?tw [0..<a] @ c # replicate (M - a - 1) 0"
    and thr: "cur_bin_threshold st = ?tw a"
    and nh: "cur_num_high st = (if r = 0 then a else min a r)"
    using f by (simp_all add: filling_def)
  have cb: "choose_bin M (replicate M 0) (bin_to_dims st) (cur_bin_threshold st) = a"
    by (rule choose_bin_filling [OF f len])
  have "length (bin_to_dims st ! a) = map length (bin_to_dims st) ! a"
    using a len by simp
  then have la: "length (bin_to_dims st ! a) = c"
    unfolding sz by (simp add: nth_append)
  have "map length ?bins = (map length (bin_to_dims st))[a := Suc c]"
    using la by (simp add: map_update)
  then have sz': "map length ?bins = map ?tw [0..<a] @ Suc c # replicate (M - a - 1) 0"
    unfolding sz by (simp add: list_update_append)
  have lb: "length (?bins ! a) = Suc c" using a len la by simp
  have twh: "?tw a \<le> high" using high by (simp add: target_width_def)
  show ?thesis
  proof (cases "Suc c < ?tw a")
    case True
    then have ne: "Suc c \<noteq> high" using twh by simp
    have "place_dim M low high r (replicate M 0) st d = Some (st\<lparr>bin_to_dims := ?bins\<rparr>)"
      using cb a len lb ne by (simp add: place_dim_def dim_to_bin_def Let_def)
    moreover have "filling M low r a (c + 1) (st\<lparr>bin_to_dims := ?bins\<rparr>)"
      using a True sz' thr nh by (simp add: filling_def)
    ultimately show ?thesis using True len by simp
  next
    case False
    then have full: "Suc c = ?tw a" using c by simp
    have pos: "0 < ?tw (Suc a)" using low by (simp add: target_width_def)
    have szn: "a + 1 < M \<Longrightarrow>
        map length ?bins = map ?tw [0..<Suc a] @ 0 # replicate (M - Suc a - 1) 0"
      unfolding sz' full by (simp add: replicate_pred_Cons)
    have szf: "\<not> a + 1 < M \<Longrightarrow> map length ?bins = map ?tw [0..<M]"
    proof -
      assume "\<not> a + 1 < M"
      then have "M = Suc a" using a by simp
      then show ?thesis unfolding sz' full by simp
    qed
    show ?thesis
    proof (cases "?tw a = high")
      case True
      define nh' where "nh' = cur_num_high st + 1"
      define st' where "st' = st\<lparr>bin_to_dims := ?bins, cur_num_high := nh',
           cur_bin_threshold := (if nh' = r then low else cur_bin_threshold st)\<rparr>"
      have run: "place_dim M low high r (replicate M 0) st d = Some st'"
        using cb a len lb full True
        by (simp add: place_dim_def dim_to_bin_def Let_def st'_def nh'_def)
      have ar: "r = 0 \<or> a < r" using True high by (auto simp: target_width_def split: if_splits)
      have nh'a: "nh' = Suc a" using nh ar by (auto simp: nh'_def)
      have thr': "cur_bin_threshold st' = ?tw (Suc a)"
        using ar thr nh'a by (auto simp: st'_def target_width_def)
      have nhn: "cur_num_high st' = (if r = 0 then Suc a else min (Suc a) r)"
        using ar nh'a by (auto simp: st'_def)
      have bins': "bin_to_dims st' = ?bins" by (simp add: st'_def)
      have "if a + 1 < M then filling M low r (a + 1) 0 st' else filled M low r st'"
        using szn szf pos thr' nhn bins' by (simp add: filling_def filled_def)
      then show ?thesis using run False len bins' by simp
    next
      case neq: False
      then have ar: "0 < r" "r \<le> a" using high by (auto simp: target_width_def split: if_splits)
      have ne: "Suc c \<noteq> high" using full neq by simp
      have run: "place_dim M low high r (replicate M 0) st d = Some (st\<lparr>bin_to_dims := ?bins\<rparr>)"
        using cb a len lb ne by (simp add: place_dim_def dim_to_bin_def Let_def)
      have "if a + 1 < M then filling M low r (a + 1) 0 (st\<lparr>bin_to_dims := ?bins\<rparr>)
            else filled M low r (st\<lparr>bin_to_dims := ?bins\<rparr>)"
        using szn szf pos thr nh ar by (simp add: filling_def filled_def target_width_def)
      then show ?thesis using run False len by simp
    qed
  qed
qed

lemma offset_at_Suc: "offset_at r low (Suc b) = offset_at r low b + target_width r low b"
  by (simp add: offset_at_def target_width_def)

lemma offset_at_mono: "a \<le> b \<Longrightarrow> offset_at r low a \<le> offset_at r low b"
  by (simp add: offset_at_def add_le_mono)

lemma fill_run:
  assumes low: "0 < low" and r: "r < M" and high: "high = (if r = 0 then low else low + 1)"
    and D: "D = offset_at r low M"
  shows "filling M low r a c st \<Longrightarrow> length (bin_to_dims st) = M \<Longrightarrow>
     k = offset_at r low a + c \<Longrightarrow>
     \<exists>st'. fold_opt (place_dim M low high r (replicate M 0)) [k..<D] st = Some st' \<and>
       length (bin_to_dims st') = M \<and> filled M low r st'"
proof (induction "D - k" arbitrary: k a c st)
  case 0
  have "a < M" "c < target_width r low a" using 0(2) by (simp_all add: filling_def)
  then have "k < offset_at r low (Suc a)" using 0(4) by (simp add: offset_at_Suc)
  also have "\<dots> \<le> D" unfolding D using \<open>a < M\<close> by (intro offset_at_mono) simp
  finally show ?case using 0(1) by simp
next
  case (Suc n)
  have kD: "k < D" using Suc(2) by simp
  have a: "a < M" and c: "c < target_width r low a" using Suc(3) by (simp_all add: filling_def)
  obtain st1 where st1: "place_dim M low high r (replicate M 0) st k = Some st1"
    "length (bin_to_dims st1) = M"
    "if c + 1 < target_width r low a then filling M low r a (c + 1) st1
      else if a + 1 < M then filling M low r (a + 1) 0 st1 else filled M low r st1"
    using place_dim_filling [OF Suc(3) Suc(4) low r high, of k] by blast
  have unfold: "fold_opt (place_dim M low high r (replicate M 0)) [k..<D] st =
      fold_opt (place_dim M low high r (replicate M 0)) [Suc k..<D] st1"
    using kD st1(1) by (simp add: upt_conv_Cons)
  have n: "n = D - Suc k" using Suc(2) by simp
  show ?case
  proof (cases "c + 1 < target_width r low a")
    case True
    then have "filling M low r a (c + 1) st1" using st1(3) by simp
    from Suc(1) [OF n this st1(2)] Suc(5) show ?thesis unfolding unfold by simp
  next
    case False
    then have full: "Suc c = target_width r low a" using c by simp
    have k': "Suc k = offset_at r low (Suc a)" using Suc(5) full by (simp add: offset_at_Suc)
    show ?thesis
    proof (cases "a + 1 < M")
      case True
      then have "filling M low r (a + 1) 0 st1" using st1(3) False by simp
      from Suc(1) [OF n this st1(2)] k' show ?thesis unfolding unfold by simp
    next
      case nl: False
      then have "M = Suc a" using a by simp
      then have "Suc k = D" using k' D by simp
      moreover have "filled M low r st1" using st1(3) False nl by simp
      ultimately show ?thesis unfolding unfold using st1(2) by simp
    qed
  qed
qed


lemma offsets_filled:
  assumes "filled M low r st" "length (bin_to_dims st) = M"
  shows "0 < n \<Longrightarrow> n \<le> M \<Longrightarrow>
    foldl (push_offset (bin_to_dims st)) [0] [0..<n] = map (offset_at r low) [0..<n]"
proof (induction n)
  case 0
  then show ?case by simp
next
  case (Suc n)
  show ?case
  proof (cases "n = 0")
    case True
    then show ?thesis by (simp add: push_offset_def offset_at_def)
  next
    case False
    then have n: "0 < n" "n \<le> M" "n - 1 < M" using Suc.prems by simp_all
    have "length (bin_to_dims st ! (n - 1)) = map length (bin_to_dims st) ! (n - 1)"
      using n(3) assms(2) by simp
    also have "\<dots> = target_width r low (n - 1)"
      using assms(1) n(3) by (simp add: filled_def)
    finally have w: "length (bin_to_dims st ! (n - 1)) = target_width r low (n - 1)" .
    have "offset_at r low (n - 1) + target_width r low (n - 1) = offset_at r low n"
      using offset_at_Suc [of r low "n - 1"] n(1) by simp
    then show ?thesis
      using Suc.IH [OF n(1,2)] n(1) w by (simp add: push_offset_def nth_append)
  qed
qed

lemma count_below: "r \<le> M \<Longrightarrow> length (filter (\<lambda>i. i < r) [0..<M]) = r"
proof (induction M)
  case 0
  then show ?case by simp
next
  case (Suc M)
  then show ?case by (cases "r = Suc M") auto
qed

lemma compute_chunk_offsets_closed_form:
  assumes "1 \<le> M" "M \<le> D"
  shows "compute_chunk_offsets D M =
           Some (map (\<lambda>i. i * (D div M) + min i (D mod M)) [0..<Suc M])"
proof -
  define low where "low = D div M"
  define r where "r = D mod M"
  define high where "high = (if r = 0 then low else low + 1)"
  define init where "init = \<lparr>bin_to_dims = replicate M ([] :: nat list), cur_num_high = 0,
                    cur_bin_threshold = high\<rparr>"
  have M: "0 < M" using assms(1) by simp
  have low: "0 < low" using assms M by (simp add: low_def div_greater_zero_iff)
  have r: "r < M" using M by (simp add: r_def)
  have D: "D = offset_at r low M"
    using r by (simp add: offset_at_def r_def low_def)
  have mnh: "D - low * M = r"
    by (simp add: r_def low_def minus_mult_div_eq_mod mult.commute)
  have hv: "high_val D M = high" using M by (simp add: high_val_div high_def r_def low_def)
  have init_sz: "map length (bin_to_dims init) = 0 # replicate (M - 1) 0"
    using replicate_pred_Cons [OF M, of "0::nat"] by (simp add: init_def)
  have "filling M low r 0 0 init"
    using M low init_sz by (simp add: filling_def target_width_def init_def high_def)
  moreover have "length (bin_to_dims init) = M" by (simp add: init_def)
  ultimately obtain st where st:
    "fold_opt (place_dim M low high r (replicate M 0)) [0..<D] init = Some st"
    "length (bin_to_dims st) = M" "filled M low r st"
    using fill_run [OF low r high_def D, of 0 0 init 0] by (auto simp: offset_at_def)
  have "foldl (push_offset (bin_to_dims st)) [0] [0..<M] @ [D] = map (offset_at r low) [0..<Suc M]"
    using offsets_filled [OF st(3,2) M] D by simp
  then show ?thesis
    using M st(1) mnh hv
    by (simp add: compute_chunk_offsets_def Let_def low_val_div init_def [symmetric]
        low_def [symmetric] offset_at_def r_def)
qed

text \<open>
  Claim C1, as the code has it. For every dimension \<open>D\<close> and chunk count \<open>M\<close> with
  \<open>1 \<le> M \<le> D\<close> the partition code returns offsets \<open>offs[0..M]\<close> with
  \<open>offs[i] = i * floor(D/M) + min i (D mod M)\<close>: \<open>offs[0] = 0\<close>, \<open>offs[M] = D\<close>,
  the offsets increase strictly, every width is \<open>floor(D/M)\<close> or \<open>ceil(D/M)\<close>, and
  exactly \<open>D - floor(D/M) * M\<close> groups (the first ones) have width \<open>floor(D/M) + 1\<close>.
\<close>

theorem chunk_offsets_balanced:
  assumes "1 \<le> M" "M \<le> D"
  shows "\<exists>offs. compute_chunk_offsets D M = Some offs \<and>
     offs = map (\<lambda>i. i * (D div M) + min i (D mod M)) [0..<M + 1] \<and>
     length offs = M + 1 \<and> offs ! 0 = 0 \<and> offs ! M = D \<and>
     (\<forall>i<M. offs ! i < offs ! (i + 1)) \<and>
     (\<forall>i<M. offs ! (i + 1) - offs ! i = low_val D M \<or> offs ! (i + 1) - offs ! i = high_val D M) \<and>
     length (filter (\<lambda>i. offs ! (i + 1) - offs ! i = low_val D M + 1) [0..<M])
       = D - low_val D M * M"
proof -
  define offs where "offs = map (\<lambda>i. i * (D div M) + min i (D mod M)) [0..<M + 1]"
  have M: "0 < M" using assms(1) by simp
  have low: "0 < D div M" using assms M by (simp add: div_greater_zero_iff)
  have r: "D mod M < M" using M by simp
  have nth: "\<And>i. i \<le> M \<Longrightarrow> offs ! i = i * (D div M) + min i (D mod M)"
    unfolding offs_def by (simp del: upt_Suc add: nth_map_upt)
  have width: "\<And>i. i < M \<Longrightarrow> offs ! Suc i - offs ! i = (if i < D mod M then D div M + 1 else D div M)"
    using nth by (simp add: min_def)
  have c1: "compute_chunk_offsets D M = Some offs"
    unfolding offs_def using compute_chunk_offsets_closed_form [OF assms] by simp
  have c2: "length offs = M + 1" by (simp add: offs_def)
  have c3: "offs ! 0 = 0" using nth [of 0] by simp
  have c4: "offs ! M = D" using nth [of M] r by (simp add: min_def mult.commute)
  have c5: "\<forall>i<M. offs ! i < offs ! (i + 1)"
    using nth low by (auto simp: min_def)
  have c6: "\<forall>i<M. offs ! (i + 1) - offs ! i = low_val D M \<or> offs ! (i + 1) - offs ! i = high_val D M"
    using width M by (auto simp: low_val_div high_val_div)
  have "filter (\<lambda>i. offs ! (i + 1) - offs ! i = low_val D M + 1) [0..<M]
      = filter (\<lambda>i. i < D mod M) [0..<M]"
    by (rule filter_cong) (simp_all add: width low_val_div)
  then have c7: "length (filter (\<lambda>i. offs ! (i + 1) - offs ! i = low_val D M + 1) [0..<M])
       = D - low_val D M * M"
    using count_below [of "D mod M" M] r
    by (simp add: low_val_div minus_mult_div_eq_mod mult.commute)
  show ?thesis using c1 c2 c3 c4 c5 c6 c7 offs_def by blast
qed

text \<open>The scenario \<open>D = 10\<close>, \<open>M = 3\<close>: the offsets are \<open>[0, 4, 7, 10]\<close>.\<close>

theorem chunk_offsets_balanced_witness:
  "compute_chunk_offsets 10 3 = Some [0, 4, 7, 10]"
proof -
  have h1: "(1::nat) \<le> 3" and h2: "(3::nat) \<le> 10" by simp_all
  have "map (\<lambda>i. i * (10 div 3) + min i (10 mod 3)) [0..<3 + 1] = [0, 4, 7, 10::nat]"
    by code_simp
  then show ?thesis using chunk_offsets_balanced [OF h1 h2] by simp
qed

text \<open>
  Claim C1 as stated counts the groups of width \<open>ceil(D/M)\<close>. When \<open>M\<close> divides
  \<open>D\<close> every group has that width: for \<open>D = 8\<close>, \<open>M = 4\<close> there are four such
  groups, and \<open>D - floor(D/M) * M = 0\<close>.
\<close>

theorem chunk_offsets_ceil_count_counterexample:
  "compute_chunk_offsets 8 4 = Some [0, 2, 4, 6, 8] \<and>
   high_val 8 4 = 2 \<and>
   length (filter (\<lambda>i. [0, 2, 4, 6, 8 :: nat] ! (i + 1) - [0, 2, 4, 6, 8] ! i = high_val 8 4)
             [0..<4]) = 4 \<and>
   8 - low_val 8 4 * 4 = 0"
  by code_simp

subsection \<open>The aligned reader\<close>

lemma accepted_simps [simp]:
  "accepted [] = 0" "accepted (c # tr) = max 0 (result c) + accepted tr"
  by (simp_all add: accepted_def)

lemma attempts_simps [simp]:
  "attempts [] = 0" "attempts (c # tr) = (if 0 \<le> result c then 1 else 0) + attempts tr"
  by (simp_all add: attempts_def)






















subsection \<open>The transposed view of a loaded table\<close>

lemma transpose_row_inv:
  assumes "length tr = 256 * nd" "i < 256"
  shows "m \<le> nd \<Longrightarrow>
    length (foldl (\<lambda>tr j. tr[j * 256 + i := tbl ! (i * nd + j)]) tr [0..<m]) = length tr \<and>
    (\<forall>k<length tr.
       foldl (\<lambda>tr j. tr[j * 256 + i := tbl ! (i * nd + j)]) tr [0..<m] ! k =
         (if k mod 256 = i \<and> k div 256 < m then tbl ! (i * nd + k div 256) else tr ! k))"
proof (induction m)
  case 0
  then show ?case by simp
next
  case (Suc m)
  let ?f = "\<lambda>tr j. tr[j * 256 + i := tbl ! (i * nd + j)]"
  let ?t = "foldl ?f tr [0..<m]"
  have len: "length ?t = length tr"
    and val: "\<forall>k<length tr. ?t ! k =
         (if k mod 256 = i \<and> k div 256 < m then tbl ! (i * nd + k div 256) else tr ! k)"
    using Suc by simp_all
  have in_range: "m * 256 + i < length tr"
    using Suc.prems assms by simp
  have step: "foldl ?f tr [0..<Suc m] = ?t[m * 256 + i := tbl ! (i * nd + m)]" by simp
  have "\<forall>k<length tr. ?t[m * 256 + i := tbl ! (i * nd + m)] ! k =
         (if k mod 256 = i \<and> k div 256 < Suc m then tbl ! (i * nd + k div 256) else tr ! k)"
  proof (intro allI impI)
    fix k assume k: "k < length tr"
    show "?t[m * 256 + i := tbl ! (i * nd + m)] ! k =
         (if k mod 256 = i \<and> k div 256 < Suc m then tbl ! (i * nd + k div 256) else tr ! k)"
    proof (cases "k = m * 256 + i")
      case True
      then have "k mod 256 = i" "k div 256 = m" using assms(2) by simp_all
      then show ?thesis using True in_range len by simp
    next
      case False
      then have "\<not> (k mod 256 = i \<and> k div 256 = m)"
        using div_mult_mod_eq [of k 256] by auto
      then show ?thesis using False val k by (auto simp: less_Suc_eq)
    qed
  qed
  then show ?case unfolding step using len by simp
qed

lemma transpose_row_result:
  assumes "length tr = 256 * nd" "i < 256"
  shows "length (transpose_row tbl nd tr i) = length tr \<and>
    (\<forall>k<length tr. transpose_row tbl nd tr i ! k =
         (if k mod 256 = i then tbl ! (i * nd + k div 256) else tr ! k))"
proof -
  have "\<And>k. k < length tr \<Longrightarrow> k div 256 < nd"
    using assms(1) by (simp add: less_mult_imp_div_less mult.commute)
  then show ?thesis
    using transpose_row_inv [OF assms, of nd tbl] by (simp add: transpose_row_def)
qed

lemma transpose_rows_inv:
  assumes "length tr = 256 * nd"
  shows "n \<le> 256 \<Longrightarrow>
    length (foldl (transpose_row tbl nd) tr [0..<n]) = length tr \<and>
    (\<forall>k<length tr. foldl (transpose_row tbl nd) tr [0..<n] ! k =
         (if k mod 256 < n then tbl ! (k mod 256 * nd + k div 256) else tr ! k))"
proof (induction n)
  case 0
  then show ?case by simp
next
  case (Suc n)
  let ?t = "foldl (transpose_row tbl nd) tr [0..<n]"
  have len: "length ?t = length tr"
    and val: "\<forall>k<length tr. ?t ! k =
         (if k mod 256 < n then tbl ! (k mod 256 * nd + k div 256) else tr ! k)"
    using Suc by simp_all
  have l: "length ?t = 256 * nd" using len assms by simp
  have n: "n < 256" using Suc.prems by simp
  from transpose_row_result [OF l n, of tbl]
  have r: "length (transpose_row tbl nd ?t n) = length ?t"
    "\<forall>k<length ?t. transpose_row tbl nd ?t n ! k =
         (if k mod 256 = n then tbl ! (n * nd + k div 256) else ?t ! k)"
    by simp_all
  show ?case
    using r len val by (auto simp: less_Suc_eq)
qed

lemma transpose_tables_nth:
  assumes "c < 256" "j < nd"
  shows "transpose_tables tbl nd ! (j * 256 + c) = tbl ! (c * nd + j)"
proof -
  have len: "length (replicate (256 * nd) (undefined :: 'a)) = 256 * nd" by simp
  have k: "j * 256 + c < 256 * nd"
  proof -
    have "j * 256 + c < Suc j * 256" using assms(1) by simp
    also have "\<dots> \<le> nd * 256" using assms(2) by (intro mult_le_mono1) simp
    finally show ?thesis by (simp add: mult.commute)
  qed
  show ?thesis
    unfolding transpose_tables_def
    using transpose_rows_inv [OF len, of 256 tbl] k assms by simp
qed

lemma length_transpose_tables: "length (transpose_tables tbl nd) = 256 * nd"
proof -
  have len: "length (replicate (256 * nd) (undefined :: 'a)) = 256 * nd" by simp
  show ?thesis
    unfolding transpose_tables_def using transpose_rows_inv [OF len, of 256 tbl] by simp
qed


lemma load_bin_float_Inr:
  "load_bin_float fs name off = Inr (xs, nr, nc) \<Longrightarrow> length xs = nr * nc"
  by (auto simp: load_bin_float_def load_bin_def split: option.splits sum.splits if_splits
      elim!: floats_of.elims)

lemma load_rotation_keeps:
  "load_rotation fs name this = Inr t \<Longrightarrow>
     tables t = tables this \<and> ndims t = ndims this \<and> centroid t = centroid this \<and>
     chunk_offsets t = chunk_offsets this \<and> n_chunks t = n_chunks this"
  by (auto simp: load_rotation_def split: if_splits sum.splits prod.splits)

lemma load_pq_centroid_bin_transposed:
  assumes "load_pq_centroid_bin fs this pq_table_file num_chunks = Inr t"
  shows "tables_tr t = transpose_tables (tables t) (ndims t) \<and>
         length (tables t) = 256 * ndims t"
proof -
  from assms obtain offs tbl nc cen co nr2 this' where
    tb: "load_bin_float fs pq_table_file (offs ! 0) = Inr (tbl, NUM_PQ_CENTROIDS, nc)"
    and rot: "load_rotation fs (pq_table_file @ ''_rotation_matrix.bin'')
       (this\<lparr>tables := tbl, ndims := nc, centroid := cen, chunk_offsets := co,
              n_chunks := (nr2 + 2 ^ 64 - 1) mod 2 ^ 64\<rparr>) = Inr this'"
    and t: "t = this'\<lparr>tables_tr := transpose_tables (tables this') (ndims this')\<rparr>"
    by (auto simp: load_pq_centroid_bin_def Let_def
        split: sum.splits prod.splits if_splits)
  have "tables this' = tbl" "ndims this' = nc"
    using load_rotation_keeps [OF rot] by simp_all
  moreover have "length tbl = 256 * nc"
    using load_bin_float_Inr [OF tb] by (simp add: NUM_PQ_CENTROIDS_def)
  ultimately show ?thesis using t by simp
qed

text \<open>
  Claim C7. For every table that \<^verbatim>\<open>load_pq_centroid_bin\<close> loads without throwing,
  \<open>tables_tr[j * 256 + c] = tables[c * ndims + j]\<close> for all centers \<open>c < 256\<close> and all
  axes \<open>j < ndims\<close>.
\<close>

theorem loaded_table_transposed:
  assumes "load_pq_centroid_bin fs this pq_table_file num_chunks = Inr t"
  shows "\<forall>c<256. \<forall>j<ndims t. tables_tr t ! (j * 256 + c) = tables t ! (c * ndims t + j)"
  using load_pq_centroid_bin_transposed [OF assms] by (simp add: transpose_tables_nth)


subsection \<open>Readers of the pivot file\<close>

lemma load_bin_u64_at:
  assumes "fs p = Some f" "f off = Some \<lparr>rows = length xs, cols = 1, payload = U64s xs\<rparr>"
  shows "load_bin_u64 fs p off = Inr (xs, length xs, 1)"
  using assms by (simp add: load_bin_u64_def load_bin_def)

lemma load_bin_u32_at:
  assumes "fs p = Some f" "f off = Some \<lparr>rows = length xs, cols = 1, payload = U32s xs\<rparr>"
  shows "load_bin_u32 fs p off = Inr (xs, length xs, 1)"
  using assms by (simp add: load_bin_u32_def load_bin_def)

lemma load_bin_float_at:
  assumes "fs p = Some f" "f off = Some \<lparr>rows = nr, cols = nc, payload = Floats xs\<rparr>"
    and "length xs = nr * nc"
  shows "load_bin_float fs p off = Inr (xs, nr, nc)"
  using assms by (simp add: load_bin_float_def load_bin_def)

lemma load_pq_centroid_bin_pivot_file:
  assumes f: "fs p = Some f" and pf: "pivot_file f legacy offs K C D mu co"
  shows "load_pq_centroid_bin fs this p num_chunks =
     (if K \<noteq> 256 then Inl (ANNException ''Error reading pq_pivots file at pivots data.'')
      else if num_chunks \<noteq> 0 \<and> length co \<noteq> num_chunks + 1
      then Inl (ANNException ''Error loading chunk offsets file'')
      else
        case load_rotation fs (p @ ''_rotation_matrix.bin'')
               (this\<lparr>tables := C, ndims := D, centroid := mu, chunk_offsets := co,
                      n_chunks := (length co + 2 ^ 64 - 1) mod 2 ^ 64\<rparr>) of
          Inl e \<Rightarrow> Inl e
        | Inr t \<Rightarrow> Inr (t\<lparr>tables_tr := transpose_tables (tables t) (ndims t)\<rparr>))"
proof -
  have len: "length offs = (if legacy then 5 else 4)"
    and b0: "f 0 = Some \<lparr>rows = length offs, cols = 1, payload = U64s offs\<rparr>"
    and b1: "f (offs ! 0) = Some \<lparr>rows = K, cols = D, payload = Floats C\<rparr>" "length C = K * D"
    and b2: "f (offs ! 1) = Some \<lparr>rows = D, cols = 1, payload = Floats mu\<rparr>" "length mu = D"
    and b3: "f (offs ! (if legacy then 3 else 2))
       = Some \<lparr>rows = length co, cols = 1, payload = U32s co\<rparr>"
    using pf by (simp_all add: pivot_file_def)
  have l0: "load_bin_u64 fs p 0 = Inr (offs, length offs, 1)"
    using load_bin_u64_at [of fs p f 0 offs] f b0 by simp
  have l1: "load_bin_float fs p (offs ! 0) = Inr (C, K, D)"
    using load_bin_float_at [of fs p f "offs ! 0" K D C] f b1 by simp
  have l2: "load_bin_float fs p (offs ! 1) = Inr (mu, D, 1)"
    using load_bin_float_at [of fs p f "offs ! 1" D 1 mu] f b2 by simp
  have l3: "load_bin_u32 fs p (offs ! (if legacy then 3 else 2)) = Inr (co, length co, 1)"
    using load_bin_u32_at [of fs p f "offs ! (if legacy then 3 else 2)" co] f b3 by simp
  show ?thesis
  proof (cases legacy)
    case True
    then show ?thesis
      using len l0 l1 l2 l3
      by (simp add: load_pq_centroid_bin_def Let_def NUM_PQ_CENTROIDS_def)
  next
    case False
    then show ?thesis
      using len l0 l1 l2 l3
      by (simp add: load_pq_centroid_bin_def Let_def NUM_PQ_CENTROIDS_def)
  qed
qed

lemma load_rotation_absent:
  "fs name = None \<Longrightarrow> load_rotation fs name this = Inr this"
  by (simp add: load_rotation_def file_exists_def)

lemma load_rotation_fits:
  assumes "rotation_file_fits fs p (ndims this)"
  shows "\<exists>t. load_rotation fs (p @ ''_rotation_matrix.bin'') this = Inr t \<and>
     tables t = tables this \<and> ndims t = ndims this \<and> centroid t = centroid this \<and>
     chunk_offsets t = chunk_offsets this \<and> n_chunks t = n_chunks this"
  using assms
  by (auto simp: rotation_file_fits_def load_rotation_def file_exists_def load_bin_float_def
      load_bin_def split: option.splits payload.splits)

lemma load_encoder_pivots_legacy:
  assumes f: "fs p = Some f" and pf: "pivot_file f True offs K C D mu co"
  shows "load_encoder_pivots fs dimn num_centers num_pq_chunks p use_opq =
     Inl (ANNException ''Error reading pq_pivots file at offsets data.'')"
proof -
  have len: "length offs = 5"
    and b0: "f 0 = Some \<lparr>rows = length offs, cols = 1, payload = U64s offs\<rparr>"
    using pf by (simp_all add: pivot_file_def)
  have l0: "load_bin_u64 fs p 0 = Inr (offs, length offs, 1)"
    using load_bin_u64_at [of fs p f 0 offs] f b0 by simp
  show ?thesis using f len l0 by (simp add: load_encoder_pivots_def file_exists_def)
qed

lemma load_encoder_pivots_new:
  assumes f: "fs p = Some f" and pf: "pivot_file f False offs K C D mu co"
    and "length co = num_pq_chunks + 1"
  shows "load_encoder_pivots fs D K num_pq_chunks p False =
     Inr \<lparr>e_full_pivot_data = C, e_centroid = mu, e_chunk_offsets = co, e_rotmat_tr = []\<rparr>"
proof -
  have len: "length offs = 4"
    and b0: "f 0 = Some \<lparr>rows = length offs, cols = 1, payload = U64s offs\<rparr>"
    and b1: "f (offs ! 0) = Some \<lparr>rows = K, cols = D, payload = Floats C\<rparr>" "length C = K * D"
    and b2: "f (offs ! 1) = Some \<lparr>rows = D, cols = 1, payload = Floats mu\<rparr>" "length mu = D"
    and b3: "f (offs ! 2) = Some \<lparr>rows = length co, cols = 1, payload = U32s co\<rparr>"
    using pf by (simp_all add: pivot_file_def)
  have l0: "load_bin_u64 fs p 0 = Inr (offs, length offs, 1)"
    using load_bin_u64_at [of fs p f 0 offs] f b0 by simp
  have l1: "load_bin_float fs p (offs ! 0) = Inr (C, K, D)"
    using load_bin_float_at [of fs p f "offs ! 0" K D C] f b1 by simp
  have l2: "load_bin_float fs p (offs ! 1) = Inr (mu, D, 1)"
    using load_bin_float_at [of fs p f "offs ! 1" D 1 mu] f b2 by simp
  have l3: "load_bin_u32 fs p (offs ! 2) = Inr (co, length co, 1)"
    using load_bin_u32_at [of fs p f "offs ! 2" co] f b3 by simp
  show ?thesis
    using f len l0 l1 l2 l3 assms(3)
    by (simp add: load_encoder_pivots_def file_exists_def load_encoder_rotation_def)
qed

lemma legacy_pivots_wellformed:
  "pivot_file legacy_pivots True [4096, 6152, 6168, 6184, 6204] 256 (map real [0..<512]) 2
     [0, 0] [0, 1, 2]"
  by (simp add: pivot_file_def legacy_pivots_def)

lemma legacy_disk_files:
  "legacy_disk ''pq_pivots.bin'' = Some legacy_pivots"
  "legacy_disk (''pq_pivots.bin'' @ ''_rotation_matrix.bin'') = None"
  "read_base_header legacy_disk ''base.bin''
     = Inr \<lparr>rows = 1, cols = 2, payload = Floats [3, 4]\<rparr>"
  by (simp_all add: legacy_disk_def read_base_header_def)

text \<open>The legacy file of the example: entry \<open>(5, 1)\<close> of the centroids is 11.\<close>

theorem loaded_table_transposed_witness:
  "\<exists>t. load_pq_centroid_bin legacy_disk empty_table ''pq_pivots.bin'' 0 = Inr t \<and>
       ndims t = 2 \<and> tables_tr t ! (1 * 256 + 5) = tables t ! (5 * ndims t + 1) \<and>
       tables t ! (5 * ndims t + 1) = 11"
proof -
  have "load_pq_centroid_bin legacy_disk empty_table ''pq_pivots.bin'' 0 =
       Inr (empty_table\<lparr>tables := map real [0..<512], ndims := 2, centroid := [0, 0],
                  chunk_offsets := [0, 1, 2], n_chunks := 2,
                  tables_tr := transpose_tables (map real [0..<512]) 2\<rparr>)"
    (is "_ = Inr ?t")
    using load_pq_centroid_bin_pivot_file [of legacy_disk "''pq_pivots.bin''" legacy_pivots True
        "[4096, 6152, 6168, 6184, 6204]" 256 "map real [0..<512]" 2 "[0, 0]" "[0, 1, 2]"
        empty_table 0]
      legacy_disk_files(1,2) legacy_pivots_wellformed
    by (simp add: load_rotation_absent)
  moreover from loaded_table_transposed [OF this]
  have "\<forall>c<256. \<forall>j<ndims ?t. tables_tr ?t ! (j * 256 + c) = tables ?t ! (c * ndims ?t + j)" .
  then have "tables_tr ?t ! (1 * 256 + 5) = tables ?t ! (5 * ndims ?t + 1)"
    by (elim allE [of _ 5] impE allE [of _ 1]) simp_all
  moreover have "tables ?t ! (5 * ndims ?t + 1) = 11" by simp
  ultimately show ?thesis by simp
qed

text \<open>
  Claim C6, as the code has it. On every well-formed pivot file with 256 centers, in the
  new layout or the legacy one, beside which the rotation file is absent or holds a matrix
  of the right shape, \<^verbatim>\<open>load_pq_centroid_bin\<close> succeeds and takes the chunk offsets from the block that
  entry 2 (new) or entry 3 (legacy) names. The encoder \<^verbatim>\<open>generate_pq_data_from_pivots\<close>
  reads the new layout, and throws on every legacy file: it accepts four offsets only.
\<close>

theorem pivot_readers_offset_tables:
  assumes f: "fs p = Some f" and pf: "pivot_file f legacy offs 256 C D mu co"
    and nc: "num_chunks = 0 \<or> length co = num_chunks + 1"
    and rot: "rotation_file_fits fs p D"
    and base: "read_base_header fs data_file = Inr base"
  shows "(\<exists>t. load_pq_centroid_bin fs this p num_chunks = Inr t \<and>
          tables t = C \<and> ndims t = D \<and> centroid t = mu \<and> chunk_offsets t = co \<and>
          n_chunks t = (length co + 2 ^ 64 - 1) mod 2 ^ 64 \<and>
          tables_tr t = transpose_tables C D) \<and>
     (legacy \<longrightarrow>
        generate_pq_data_from_pivots encode_blocks fs data_file num_centers num_pq_chunks p use_opq
          = Inl (ANNException ''Error reading pq_pivots file at offsets data.'')) \<and>
     (\<not> legacy \<and> cols base = D \<and> length co = num_pq_chunks + 1 \<longrightarrow>
        generate_pq_data_from_pivots encode_blocks fs data_file 256 num_pq_chunks p False
          = encode_blocks \<lparr>e_full_pivot_data = C, e_centroid = mu, e_chunk_offsets = co,
                            e_rotmat_tr = []\<rparr> base fs)"
proof -
  define this' where "this' = this\<lparr>tables := C, ndims := D, centroid := mu,
      chunk_offsets := co, n_chunks := (length co + 2 ^ 64 - 1) mod 2 ^ 64\<rparr>"
  have "rotation_file_fits fs p (ndims this')" using rot by (simp add: this'_def)
  from load_rotation_fits [OF this] obtain t where
    t: "load_rotation fs (p @ ''_rotation_matrix.bin'') this' = Inr t"
    "tables t = tables this'" "ndims t = ndims this'" "centroid t = centroid this'"
    "chunk_offsets t = chunk_offsets this'" "n_chunks t = n_chunks this'"
    by blast
  have "load_pq_centroid_bin fs this p num_chunks
      = Inr (t\<lparr>tables_tr := transpose_tables (tables t) (ndims t)\<rparr>)"
    using load_pq_centroid_bin_pivot_file [of fs p f legacy offs 256 C D mu co this num_chunks]
      f pf nc t(1)
    by (auto simp: this'_def)
  then have a: "\<exists>t. load_pq_centroid_bin fs this p num_chunks = Inr t \<and>
          tables t = C \<and> ndims t = D \<and> centroid t = mu \<and> chunk_offsets t = co \<and>
          n_chunks t = (length co + 2 ^ 64 - 1) mod 2 ^ 64 \<and>
          tables_tr t = transpose_tables C D"
    using t(2-6) by (simp add: this'_def)
  have b: "legacy \<longrightarrow>
        generate_pq_data_from_pivots encode_blocks fs data_file num_centers num_pq_chunks p use_opq
          = Inl (ANNException ''Error reading pq_pivots file at offsets data.'')"
  proof
    assume legacy
    then have "load_encoder_pivots fs (cols base) num_centers num_pq_chunks p use_opq =
        Inl (ANNException ''Error reading pq_pivots file at offsets data.'')"
      using load_encoder_pivots_legacy [of fs p f offs 256 C D mu co] f pf by simp
    then show "generate_pq_data_from_pivots encode_blocks fs data_file num_centers
        num_pq_chunks p use_opq
          = Inl (ANNException ''Error reading pq_pivots file at offsets data.'')"
      using base by (simp add: generate_pq_data_from_pivots_def)
  qed
  have c: "\<not> legacy \<and> cols base = D \<and> length co = num_pq_chunks + 1 \<longrightarrow>
        generate_pq_data_from_pivots encode_blocks fs data_file 256 num_pq_chunks p False
          = encode_blocks \<lparr>e_full_pivot_data = C, e_centroid = mu, e_chunk_offsets = co,
                            e_rotmat_tr = []\<rparr> base fs"
  proof
    assume h: "\<not> legacy \<and> cols base = D \<and> length co = num_pq_chunks + 1"
    then have "load_encoder_pivots fs D 256 num_pq_chunks p False =
        Inr \<lparr>e_full_pivot_data = C, e_centroid = mu, e_chunk_offsets = co, e_rotmat_tr = []\<rparr>"
      using load_encoder_pivots_new [of fs p f offs 256 C D mu co num_pq_chunks] f pf by simp
    then show "generate_pq_data_from_pivots encode_blocks fs data_file 256 num_pq_chunks p False
          = encode_blocks \<lparr>e_full_pivot_data = C, e_centroid = mu, e_chunk_offsets = co,
                            e_rotmat_tr = []\<rparr> base fs"
      using base h by (simp add: generate_pq_data_from_pivots_def)
  qed
  show ?thesis using a b c by blast
qed


theorem pivot_readers_offset_tables_witness:
  "(\<exists>t. load_pq_centroid_bin legacy_disk empty_table ''pq_pivots.bin'' 2 = Inr t \<and>
        tables t = map real [0..<512] \<and> ndims t = 2 \<and> centroid t = [0, 0] \<and>
        chunk_offsets t = [0, 1, 2] \<and> n_chunks t = 2) \<and>
   generate_pq_data_from_pivots (\<lambda>pv base fs. Inr (0, fs)) legacy_disk ''base.bin'' 256 2
       ''pq_pivots.bin'' False
     = Inl (ANNException ''Error reading pq_pivots file at offsets data.'')"
proof -
  have nc: "(2::nat) = 0 \<or> length [0, 1, 2 :: nat] = 2 + 1" by simp
  have rot: "rotation_file_fits legacy_disk ''pq_pivots.bin'' 2"
    using legacy_disk_files(2) by (simp add: rotation_file_fits_def)
  from pivot_readers_offset_tables [OF legacy_disk_files(1) legacy_pivots_wellformed nc
      rot legacy_disk_files(3), of empty_table "\<lambda>pv base fs. Inr (0, fs)" 256 2 False]
  show ?thesis by auto
qed

text \<open>
  Claim C6 as stated has the encoder load a well-formed legacy file. On the legacy file of
  the example it throws at the table of offsets.
\<close>

theorem encoder_rejects_legacy_counterexample:
  "pivot_file legacy_pivots True [4096, 6152, 6168, 6184, 6204] 256 (map real [0..<512]) 2
     [0, 0] [0, 1, 2] \<and>
   legacy_disk ''pq_pivots.bin'' = Some legacy_pivots \<and>
   generate_pq_data_from_pivots (\<lambda>pv base fs. Inr (0, fs)) legacy_disk ''base.bin'' 256 2
       ''pq_pivots.bin'' False
     = Inl (ANNException ''Error reading pq_pivots file at offsets data.'')"
  by (simp add: pivot_file_def legacy_pivots_def legacy_disk_def generate_pq_data_from_pivots_def
      read_base_header_def load_bin_def load_encoder_pivots_def file_exists_def load_bin_u64_def)

subsection \<open>The output buffers\<close>

lemma memset_zero_same:
  "length d1 = length d2 \<Longrightarrow> drop n d1 = drop n d2 \<Longrightarrow> memset_zero n d1 = memset_zero n d2"
  by (simp add: memset_zero_def)

text \<open>
  Claim C10. \<^verbatim>\<open>populate_chunk_distances\<close>, \<^verbatim>\<open>populate_chunk_inner_products\<close> and
  \<^verbatim>\<open>pq_dist_lookup\<close> do not depend on what their output region held before: for two
  output buffers of the same length that agree beyond the output region (\<open>256 * n_chunks\<close>
  entries for the first two, \<open>n_pts\<close> for the third) and the same other inputs, the three
  functions return the same buffer, or both runs leave the arrays.
\<close>

theorem output_buffer_contents_irrelevant:
  fixes this :: "'a::{zero,plus,minus,times} FixedChunkPQTable"
  assumes "length d1 = length d2"
    and "drop (256 * n_chunks this) d1 = drop (256 * n_chunks this) d2"
    and "length o1 = length o2"
    and "drop n_pts o1 = drop n_pts o2"
  shows "populate_chunk_distances this query_vec d1 = populate_chunk_distances this query_vec d2 \<and>
     populate_chunk_inner_products this query_vec d1
       = populate_chunk_inner_products this query_vec d2 \<and>
     pq_dist_lookup pq_ids n_pts pq_nchunks (pq_dists :: 'a list) o1
       = pq_dist_lookup pq_ids n_pts pq_nchunks pq_dists o2"
  using memset_zero_same [OF assms(1,2)] memset_zero_same [OF assms(3,4)]
  by (simp add: populate_chunk_distances_def populate_chunk_inner_products_def pq_dist_lookup_def)

text \<open>Buffers of ones and of twos, and the lookup of the scenario on two buffers.\<close>

theorem output_buffer_contents_irrelevant_witness:
  "populate_chunk_distances one_chunk_table [3] (replicate 256 1)
     = populate_chunk_distances one_chunk_table [3] (replicate 256 2) \<and>
   populate_chunk_inner_products one_chunk_table [3] (replicate 256 1)
     = populate_chunk_inner_products one_chunk_table [3] (replicate 256 2) \<and>
   pq_dist_lookup [1, 2, 3, 0, 0, 0] 2 3
       (concat (map (\<lambda>c. map (\<lambda>k. int c * 10 + int k) [0..<256]) [0..<3])) [7, 7]
     = pq_dist_lookup [1, 2, 3, 0, 0, 0] 2 3
       (concat (map (\<lambda>c. map (\<lambda>k. int c * 10 + int k) [0..<256]) [0..<3])) [0, 0]"
proof -
  have h1: "length (replicate 256 (1::int)) = length (replicate 256 (2::int))" by simp
  have h2: "drop (256 * n_chunks one_chunk_table) (replicate 256 (1::int))
      = drop (256 * n_chunks one_chunk_table) (replicate 256 (2::int))"
    by (simp add: one_chunk_table_def)
  have h3: "length [7, 7 :: int] = length [0, 0 :: int]" by simp
  have h4: "drop 2 [7, 7 :: int] = drop 2 [0, 0 :: int]" by simp
  show ?thesis
    by (rule output_buffer_contents_irrelevant [OF h1 h2 h3 h4])
qed

subsection \<open>The trainers and the caller's training data\<close>

lemma passed_copy_train_data [simp]:
  "passed_train_data (copy_train_data n d mem) = passed_train_data mem"
  by (simp add: copy_train_data_def)

lemma passed_center_train_data [simp]:
  "passed_train_data (center_train_data ext n d z mem) = passed_train_data mem"
  by (simp add: center_train_data_def Let_def)

lemma passed_train_chunk [simp]:
  "passed_train_data (train_chunk ext n d k reps mem i) = passed_train_data mem"
  by (simp add: train_chunk_def Let_def)

lemma passed_opq_chunk [simp]:
  "passed_train_data (opq_chunk ext n d k rnd mem i) = passed_train_data mem"
  by (simp add: opq_chunk_def Let_def)








subsection \<open>Rejected and skipped training\<close>

lemma generate_pq_pivots_rejects:
  "num_pq_chunks > dimn \<Longrightarrow>
     generate_pq_pivots ext ms passed n dimn k num_pq_chunks reps p z fs
       = (Returns (- 1), entry_memory passed, fs)"
  by (simp add: generate_pq_pivots_def)

lemma generate_pq_pivots_skips:
  assumes "num_pq_chunks \<le> dimn" "n * dimn \<le> length passed"
    and "fs p = Some f" "f ms = Some \<lparr>rows = k, cols = dimn, payload = Floats piv\<rparr>"
    and "length piv = k * dimn"
  shows "generate_pq_pivots ext ms passed n dimn k num_pq_chunks reps p z fs
       = (Returns (- 1), copy_train_data n dimn (entry_memory passed)\<lparr>full_pivot_data := piv\<rparr>,
          fs)"
proof -
  have "load_bin_float fs p ms = Inr (piv, k, dimn)"
    using assms(3,4,5) by (simp add: load_bin_float_def load_bin_def)
  then have "check_existing_pivots ms fs p dimn k (copy_train_data n dimn (entry_memory passed))
      = Inr (True, copy_train_data n dimn (entry_memory passed)\<lparr>full_pivot_data := piv\<rparr>)"
    using assms(3) by (simp add: check_existing_pivots_def file_exists_def)
  then show ?thesis
    using assms(1,2) by (simp add: generate_pq_pivots_def Let_def)
qed

text \<open>
  Claim C5, as the code has it. \<^verbatim>\<open>generate_pq_pivots\<close> returns \<open>-1\<close> when there are
  more chunks than dimensions, and leaves the file system as it is. When a pivot file
  exists whose block of centroids has the shape \<open>(num_centers, dim)\<close> it leaves the file
  system as it is and returns \<open>-1\<close> as well: the value of the skip is the value of the
  rejection.
\<close>

theorem generate_pq_pivots_rejects_and_skips:
  "(num_pq_chunks > dimn \<longrightarrow>
      fst (generate_pq_pivots ext METADATA_SIZE passed num_train dimn num_centers num_pq_chunks
             max_k_means_reps pq_pivots_path make_zero_mean fs) = Returns (- 1) \<and>
      snd (snd (generate_pq_pivots ext METADATA_SIZE passed num_train dimn num_centers
                  num_pq_chunks max_k_means_reps pq_pivots_path make_zero_mean fs)) = fs) \<and>
   (num_pq_chunks \<le> dimn \<and> num_train * dimn \<le> length passed \<and>
    fs pq_pivots_path = Some f \<and>
    f METADATA_SIZE = Some \<lparr>rows = num_centers, cols = dimn, payload = Floats piv\<rparr> \<and>
    length piv = num_centers * dimn \<longrightarrow>
      fst (generate_pq_pivots ext METADATA_SIZE passed num_train dimn num_centers num_pq_chunks
             max_k_means_reps pq_pivots_path make_zero_mean fs) = Returns (- 1) \<and>
      snd (snd (generate_pq_pivots ext METADATA_SIZE passed num_train dimn num_centers
                  num_pq_chunks max_k_means_reps pq_pivots_path make_zero_mean fs)) = fs)"
  using generate_pq_pivots_rejects [of dimn num_pq_chunks ext METADATA_SIZE passed num_train
      num_centers max_k_means_reps pq_pivots_path make_zero_mean fs]
    generate_pq_pivots_skips [of num_pq_chunks dimn num_train passed fs pq_pivots_path f
      METADATA_SIZE num_centers piv ext max_k_means_reps make_zero_mean]
  by auto

theorem generate_pq_pivots_rejects_and_skips_witness:
  "fst (generate_pq_pivots idle_externals 4096 [3, 4] 1 2 256 3 10 ''pq_pivots.bin'' False
          legacy_disk) = Returns (- 1) \<and>
   snd (snd (generate_pq_pivots idle_externals 4096 [3, 4] 1 2 256 3 10 ''pq_pivots.bin'' False
          legacy_disk)) = legacy_disk \<and>
   fst (generate_pq_pivots idle_externals 4096 [3, 4] 1 2 256 2 10 ''pq_pivots.bin'' False
          legacy_disk) = Returns (- 1) \<and>
   snd (snd (generate_pq_pivots idle_externals 4096 [3, 4] 1 2 256 2 10 ''pq_pivots.bin'' False
          legacy_disk)) = legacy_disk"
proof -
  have f: "legacy_disk ''pq_pivots.bin'' = Some legacy_pivots"
    by (simp add: legacy_disk_def)
  have b: "legacy_pivots 4096 = Some \<lparr>rows = 256, cols = 2, payload = Floats (map real [0..<512])\<rparr>"
    by (simp add: legacy_pivots_def)
  have a: "(3::nat) > 2" by simp
  have c: "(2::nat) \<le> 2 \<and> 1 * 2 \<le> length [3, 4 :: real] \<and>
      legacy_disk ''pq_pivots.bin'' = Some legacy_pivots \<and>
      legacy_pivots 4096 = Some \<lparr>rows = 256, cols = 2, payload = Floats (map real [0..<512])\<rparr> \<and>
      length (map real [0..<512]) = 256 * 2"
    using f b by simp
  from generate_pq_pivots_rejects_and_skips [of 2 3 idle_externals 4096 "[3, 4]" 1 256 10
      "''pq_pivots.bin''" False legacy_disk legacy_pivots "map real [0..<512]"] a
  have 1: "fst (generate_pq_pivots idle_externals 4096 [3, 4] 1 2 256 3 10 ''pq_pivots.bin'' False
          legacy_disk) = Returns (- 1) \<and>
   snd (snd (generate_pq_pivots idle_externals 4096 [3, 4] 1 2 256 3 10 ''pq_pivots.bin'' False
          legacy_disk)) = legacy_disk"
    by blast
  from generate_pq_pivots_rejects_and_skips [of 2 2 idle_externals 4096 "[3, 4]" 1 256 10
      "''pq_pivots.bin''" False legacy_disk legacy_pivots "map real [0..<512]"] c
  have 2: "fst (generate_pq_pivots idle_externals 4096 [3, 4] 1 2 256 2 10 ''pq_pivots.bin'' False
          legacy_disk) = Returns (- 1) \<and>
   snd (snd (generate_pq_pivots idle_externals 4096 [3, 4] 1 2 256 2 10 ''pq_pivots.bin'' False
          legacy_disk)) = legacy_disk"
    by blast
  show ?thesis using 1 2 by blast
qed

text \<open>
  Claim C5 as stated has the skip return a sentinel that can be told from the rejection.
  On the disk of the example, three chunks for two dimensions and two chunks over the
  existing pivots return the same value and leave the same files.
\<close>

theorem skip_and_reject_return_alike_counterexample:
  "fst (generate_pq_pivots idle_externals 4096 [3, 4] 1 2 256 3 10 ''pq_pivots.bin'' False
          legacy_disk)
   = fst (generate_pq_pivots idle_externals 4096 [3, 4] 1 2 256 2 10 ''pq_pivots.bin'' False
          legacy_disk) \<and>
   snd (snd (generate_pq_pivots idle_externals 4096 [3, 4] 1 2 256 3 10 ''pq_pivots.bin'' False
          legacy_disk))
   = snd (snd (generate_pq_pivots idle_externals 4096 [3, 4] 1 2 256 2 10 ''pq_pivots.bin'' False
          legacy_disk))"
proof -
  have f: "legacy_disk ''pq_pivots.bin'' = Some legacy_pivots"
    by (simp add: legacy_disk_def)
  have b: "legacy_pivots 4096 = Some \<lparr>rows = 256, cols = 2, payload = Floats (map real [0..<512])\<rparr>"
    by (simp add: legacy_pivots_def)
  have "generate_pq_pivots idle_externals 4096 [3, 4] 1 2 256 3 10 ''pq_pivots.bin'' False
          legacy_disk = (Returns (- 1), entry_memory [3, 4], legacy_disk)"
    by (rule generate_pq_pivots_rejects) simp
  moreover have "generate_pq_pivots idle_externals 4096 [3, 4] 1 2 256 2 10 ''pq_pivots.bin''
      False legacy_disk
       = (Returns (- 1),
          copy_train_data 1 2 (entry_memory [3, 4])\<lparr>full_pivot_data := map real [0..<512]\<rparr>,
          legacy_disk)"
    using f b generate_pq_pivots_skips [of 2 2 1 "[3, 4]" legacy_disk "''pq_pivots.bin''"
        legacy_pivots 4096 256 "map real [0..<512]" idle_externals 10 False]
    by simp
  ultimately show ?thesis by simp
qed

subsection \<open>Saving and loading the pivots\<close>

lemma length_memcpy [simp]: "length (memcpy dst d src s n) = length dst"
  by (simp add: memcpy_def)

lemma length_store_chunk [simp]: "length (store_chunk full k d start w cur) = length full"
proof -
  have "\<And>xs full. length (foldl (\<lambda>full j. memcpy full (j * d + start) cur (j * w) w) full xs)
      = length full"
  proof -
    fix xs :: "nat list" and full :: "'a list"
    show "length (foldl (\<lambda>full j. memcpy full (j * d + start) cur (j * w) w) full xs)
      = length full"
      by (induction xs arbitrary: full) simp_all
  qed
  then show ?thesis by (simp add: store_chunk_def)
qed

lemma train_chunk_keeps:
  "length (full_pivot_data (train_chunk ext n d k reps mem i)) = length (full_pivot_data mem) \<and>
   centroid_buf (train_chunk ext n d k reps mem i) = centroid_buf mem \<and>
   chunk_offsets_vec (train_chunk ext n d k reps mem i) = chunk_offsets_vec mem"
  by (simp add: train_chunk_def Let_def)

lemma train_chunks_keep:
  "length (full_pivot_data (foldl (train_chunk ext n d k reps) mem xs))
     = length (full_pivot_data mem) \<and>
   centroid_buf (foldl (train_chunk ext n d k reps) mem xs) = centroid_buf mem \<and>
   chunk_offsets_vec (foldl (train_chunk ext n d k reps) mem xs) = chunk_offsets_vec mem"
  by (induction xs arbitrary: mem) (simp_all add: train_chunk_keeps)

lemma length_centroid_buf_center:
  "length (centroid_buf (center_train_data ext n d z mem)) = d"
  by (simp add: center_train_data_def Let_def)

lemma length_push_offsets:
  "length (foldl (push_offset bins) xs [0..<n]) = length xs + (n - 1)"
proof (induction n)
  case 0
  then show ?case by simp
next
  case (Suc n)
  then show ?case by (cases n) (simp_all add: push_offset_def)
qed

lemma length_compute_chunk_offsets:
  "compute_chunk_offsets d m = Some offs \<Longrightarrow> length offs = m + 1"
  by (auto simp: compute_chunk_offsets_def Let_def length_push_offsets
      split: if_splits option.splits)

lemma generate_pq_pivots_Returns_0:
  assumes "generate_pq_pivots ext ms passed n d k m reps p z fs = (Returns 0, mem, fs')"
  shows "fs' = save_pivots ms fs p k d mem \<and>
         length (full_pivot_data mem) = k * d \<and> length (centroid_buf mem) = d \<and>
         length (chunk_offsets_vec mem) = m + 1"
proof -
  from assms obtain mem0 offs where
    c: "compute_chunk_offsets d m = Some offs"
    and m: "mem = foldl (train_chunk ext n d k reps)
        (center_train_data ext n d z mem0
           \<lparr>chunk_offsets_vec := offs, full_pivot_data := replicate (k * d) undefined\<rparr>) [0..<m]"
    and f: "fs' = save_pivots ms fs p k d mem"
    by (auto simp: generate_pq_pivots_def Let_def
        split: if_splits sum.splits prod.splits option.splits)
  show ?thesis
    using f length_compute_chunk_offsets [OF c]
    unfolding m by (simp add: train_chunks_keep length_centroid_buf_center)
qed


lemma save_pivots_other_files:
  "q \<noteq> p \<Longrightarrow> save_pivots ms fs p k d mem q = fs q"
  by (simp add: save_pivots_def save_bin_def Let_def)

lemma save_pivots_pivot_file:
  assumes ms: "40 \<le> ms" and full: "length (full_pivot_data mem) = k * d"
    and cen: "length (centroid_buf mem) = d"
  shows "\<exists>f offs. save_pivots ms fs p k d mem p = Some f \<and>
           pivot_file f False offs k (full_pivot_data mem) d (centroid_buf mem)
             (chunk_offsets_vec mem)"
proof -
  define b1 where "b1 = \<lparr>rows = k, cols = d, payload = Floats (full_pivot_data mem)\<rparr>"
  define b2 where "b2 = \<lparr>rows = d, cols = 1, payload = Floats (centroid_buf mem)\<rparr>"
  define b3 :: "'a blob" where "b3 = \<lparr>rows = length (chunk_offsets_vec mem), cols = 1,
                         payload = U32s (chunk_offsets_vec mem)\<rparr>"
  define c1 where "c1 = ms + blob_bytes b1"
  define c2 where "c2 = c1 + blob_bytes b2"
  define c3 where "c3 = c2 + blob_bytes b3"
  define b4 :: "'a blob" where "b4 = \<lparr>rows = 4, cols = 1, payload = U64s [ms, c1, c2, c3]\<rparr>"
  define f0 where "f0 = (case fs p of None \<Rightarrow> Map.empty | Some old \<Rightarrow> old)"
  define f where "f = write_blob (write_blob (write_blob (write_blob f0 ms b1) c1 b2) c2 b3) 0 b4"
  have saved: "save_pivots ms fs p k d mem p = Some f"
    using full cen
    by (simp add: save_pivots_def save_bin_def Let_def f_def f0_def b1_def b2_def b3_def b4_def
        c1_def c2_def c3_def)
  have sz: "blob_bytes b1 \<ge> 8" "blob_bytes b2 \<ge> 8" "blob_bytes b3 \<ge> 8" "blob_bytes b4 = 40"
    by (simp_all add: blob_bytes_def b4_def)
  have at0: "f 0 = Some b4" by (simp add: f_def write_blob_def)
  have at1: "f ms = Some b1"
    using ms sz by (simp add: f_def write_blob_def c1_def c2_def)
  have at2: "f c1 = Some b2"
    using ms sz by (simp add: f_def write_blob_def c1_def c2_def)
  have at3: "f c2 = Some b3"
    using ms sz by (simp add: f_def write_blob_def c1_def c2_def)
  have "pivot_file f False [ms, c1, c2, c3] k (full_pivot_data mem) d (centroid_buf mem)
             (chunk_offsets_vec mem)"
    using at0 at1 at2 at3 full cen
    by (simp add: pivot_file_def b1_def b2_def b3_def b4_def)
  then show ?thesis using saved by blast
qed

lemma generate_pq_pivots_fresh:
  assumes "1 \<le> m" "m \<le> d" "n * d \<le> length passed" "fs p = None"
  shows "fst (generate_pq_pivots ext ms passed n d k m reps p z fs) = Returns 0"
  using assms compute_chunk_offsets_closed_form [OF assms(1,2)]
  by (simp add: generate_pq_pivots_def Let_def check_existing_pivots_def file_exists_def)

text \<open>
  Claim C2, as the code has it. After every run of \<^verbatim>\<open>generate_pq_pivots\<close> that
  returns 0 with \<open>num_centers = 256\<close>, \<^verbatim>\<open>load_pq_centroid_bin\<close> on the file written,
  with the chunk count of the run or 0, succeeds: the table holds the centroids, the mean
  and the chunk offsets as the trainer left them, \<open>ndims\<close> and \<open>n_chunks\<close> are those of
  the run, and \<open>tables_tr\<close> is the transposed view computed from the centroids. The
  rotation file beside the pivot file, if there is one, holds a matrix of the right shape;
  \<^verbatim>\<open>METADATA_SIZE\<close> leaves room for the table of offsets (40 bytes), and the chunk count
  is a 32-bit value.
\<close>

theorem trained_pivots_load_back:
  assumes run: "generate_pq_pivots ext METADATA_SIZE passed num_train dimn num_centers
                  num_pq_chunks max_k_means_reps pq_pivots_path make_zero_mean fs
                = (Returns 0, mem, fs')"
    and k: "num_centers = 256"
    and ms: "40 \<le> METADATA_SIZE"
    and m: "num_pq_chunks < 2 ^ 32"
    and rot: "rotation_file_fits fs' pq_pivots_path dimn"
    and nc: "num_chunks = 0 \<or> num_chunks = num_pq_chunks"
  shows "\<exists>t. load_pq_centroid_bin fs' this pq_pivots_path num_chunks = Inr t \<and>
     tables t = full_pivot_data mem \<and> centroid t = centroid_buf mem \<and>
     chunk_offsets t = chunk_offsets_vec mem \<and>
     ndims t = dimn \<and> n_chunks t = num_pq_chunks \<and>
     tables_tr t = transpose_tables (full_pivot_data mem) dimn"
proof -
  have r: "fs' = save_pivots METADATA_SIZE fs pq_pivots_path num_centers dimn mem"
    "length (full_pivot_data mem) = num_centers * dimn" "length (centroid_buf mem) = dimn"
    "length (chunk_offsets_vec mem) = num_pq_chunks + 1"
    using generate_pq_pivots_Returns_0 [OF run] by simp_all
  obtain f offs where f: "fs' pq_pivots_path = Some f"
    and pf: "pivot_file f False offs 256 (full_pivot_data mem) dimn (centroid_buf mem)
             (chunk_offsets_vec mem)"
    using save_pivots_pivot_file [OF ms r(2,3), of fs pq_pivots_path] r(1) k by auto
  define this' where "this' = this\<lparr>tables := full_pivot_data mem, ndims := dimn,
      centroid := centroid_buf mem, chunk_offsets := chunk_offsets_vec mem,
      n_chunks := (length (chunk_offsets_vec mem) + 2 ^ 64 - 1) mod 2 ^ 64\<rparr>"
  have n: "(length (chunk_offsets_vec mem) + 2 ^ 64 - 1) mod 2 ^ 64 = num_pq_chunks"
    using r(4) m by simp
  have "rotation_file_fits fs' pq_pivots_path (ndims this')" using rot by (simp add: this'_def)
  from load_rotation_fits [OF this] obtain t where
    t: "load_rotation fs' (pq_pivots_path @ ''_rotation_matrix.bin'') this' = Inr t"
    "tables t = tables this'" "ndims t = ndims this'" "centroid t = centroid this'"
    "chunk_offsets t = chunk_offsets this'" "n_chunks t = n_chunks this'"
    by blast
  have "load_pq_centroid_bin fs' this pq_pivots_path num_chunks
      = Inr (t\<lparr>tables_tr := transpose_tables (tables t) (ndims t)\<rparr>)"
    using load_pq_centroid_bin_pivot_file [of fs' pq_pivots_path f False offs 256
        "full_pivot_data mem" dimn "centroid_buf mem" "chunk_offsets_vec mem" this num_chunks]
      f pf nc r(4) t(1)
    by (auto simp: this'_def)
  then show ?thesis using t(2-6) n by (simp add: this'_def)
qed


text \<open>One point in two dimensions, two chunks, 256 centers, on an empty disk.\<close>

theorem trained_pivots_load_back_witness:
  "\<exists>t. load_pq_centroid_bin
         (snd (snd (generate_pq_pivots idle_externals 4096 [3, 4] 1 2 256 2 10 ''fresh.bin''
                      False Map.empty)))
         empty_table ''fresh.bin'' 0 = Inr t \<and>
       tables t = full_pivot_data
         (fst (snd (generate_pq_pivots idle_externals 4096 [3, 4] 1 2 256 2 10 ''fresh.bin''
                      False Map.empty))) \<and>
       centroid t = centroid_buf
         (fst (snd (generate_pq_pivots idle_externals 4096 [3, 4] 1 2 256 2 10 ''fresh.bin''
                      False Map.empty))) \<and>
       chunk_offsets t = chunk_offsets_vec
         (fst (snd (generate_pq_pivots idle_externals 4096 [3, 4] 1 2 256 2 10 ''fresh.bin''
                      False Map.empty))) \<and>
       ndims t = 2 \<and> n_chunks t = 2"
proof -
  define R where "R = generate_pq_pivots idle_externals 4096 [3, 4] 1 2 256 2 10 ''fresh.bin''
                      False (Map.empty :: real filesystem)"
  have "fst R = Returns 0"
    unfolding R_def by (rule generate_pq_pivots_fresh) simp_all
  then have run: "generate_pq_pivots idle_externals 4096 [3, 4] 1 2 256 2 10 ''fresh.bin''
                      False (Map.empty :: real filesystem) = (Returns 0, fst (snd R), snd (snd R))"
    unfolding R_def by (metis prod.collapse)
  have "snd (snd R) = save_pivots 4096 Map.empty ''fresh.bin'' 256 2 (fst (snd R))"
    using generate_pq_pivots_Returns_0 [OF run] by simp
  then have "snd (snd R) (''fresh.bin'' @ ''_rotation_matrix.bin'') = None"
    by (simp add: save_pivots_other_files)
  then have rot: "rotation_file_fits (snd (snd R)) ''fresh.bin'' 2"
    by (simp add: rotation_file_fits_def)
  have h: "(256::nat) = 256" "(40::nat) \<le> 4096" "(2::nat) < 2 ^ 32" "(0::nat) = 0 \<or> (0::nat) = 2"
    by simp_all
  from trained_pivots_load_back [OF run h(1,2,3) rot h(4), of empty_table]
  show ?thesis unfolding R_def by blast
qed

text \<open>
  Claim C2 as stated is for every successful run. The third scenario of the
  specification trains two centers per chunk (\<open>D = 4\<close>, \<open>M = 2\<close>, \<open>K = 2\<close>): the run
  returns 0, and the loader throws on its file, which does not have 256 centers.
\<close>

theorem two_centers_do_not_load_counterexample:
  "fst (generate_pq_pivots idle_externals 4096
          [0, 0, 0, 0, 1, 1, 0, 0, 0, 0, 1, 1, 1, 1, 1, 1] 4 4 2 2 10 ''fresh.bin'' False
          Map.empty) = Returns 0 \<and>
   load_pq_centroid_bin
     (snd (snd (generate_pq_pivots idle_externals 4096
          [0, 0, 0, 0, 1, 1, 0, 0, 0, 0, 1, 1, 1, 1, 1, 1] 4 4 2 2 10 ''fresh.bin'' False
          Map.empty)))
     empty_table ''fresh.bin'' 0
   = Inl (ANNException ''Error reading pq_pivots file at pivots data.'')"
proof -
  define R where "R = generate_pq_pivots idle_externals 4096
          [0, 0, 0, 0, 1, 1, 0, 0, 0, 0, 1, 1, 1, 1, 1, 1] 4 4 2 2 10 ''fresh.bin'' False
          (Map.empty :: real filesystem)"
  have ok: "fst R = Returns 0"
    unfolding R_def by (rule generate_pq_pivots_fresh) simp_all
  then have run: "generate_pq_pivots idle_externals 4096
          [0, 0, 0, 0, 1, 1, 0, 0, 0, 0, 1, 1, 1, 1, 1, 1] 4 4 2 2 10 ''fresh.bin'' False
          (Map.empty :: real filesystem) = (Returns 0, fst (snd R), snd (snd R))"
    unfolding R_def by (metis prod.collapse)
  have r: "snd (snd R) = save_pivots 4096 Map.empty ''fresh.bin'' 2 4 (fst (snd R))"
    "length (full_pivot_data (fst (snd R))) = 2 * 4" "length (centroid_buf (fst (snd R))) = 4"
    using generate_pq_pivots_Returns_0 [OF run] by simp_all
  have ms: "(40::nat) \<le> 4096" by simp
  obtain f offs where f: "snd (snd R) ''fresh.bin'' = Some f"
    and pf: "pivot_file f False offs 2 (full_pivot_data (fst (snd R))) 4
               (centroid_buf (fst (snd R))) (chunk_offsets_vec (fst (snd R)))"
    using save_pivots_pivot_file [OF ms r(2,3), of Map.empty "''fresh.bin''"] r(1) by auto
  have "load_pq_centroid_bin (snd (snd R)) empty_table ''fresh.bin'' 0
      = Inl (ANNException ''Error reading pq_pivots file at pivots data.'')"
    using load_pq_centroid_bin_pivot_file [of "snd (snd R)" "''fresh.bin''" f False offs 2
        "full_pivot_data (fst (snd R))" 4 "centroid_buf (fst (snd R))"
        "chunk_offsets_vec (fst (snd R))" empty_table 0] f pf
    by simp
  then show ?thesis using ok unfolding R_def by simp
qed

end
